theory Spec2Isabelle
  imports Main
begin

section \<open>Values and records of \<^verbatim>\<open>js/background.js\<close>\<close>

text \<open>
  The background page keeps one \<^verbatim>\<open>Meetings\<close> container, a \<^verbatim>\<open>Map\<close> from the
  numeric id to the \<^verbatim>\<open>Meeting\<close> object, and one \<^verbatim>\<open>Badge\<close>. The model below
  follows the classes method by method. A \<^verbatim>\<open>Meeting\<close> object is created in
  \<^verbatim>\<open>onConnect\<close> and added to the container once, so the entry of the map is where its
  fields live, and a method that writes a field of the object rewrites the entry.
  Numbers that are counters or sizes are
  \<open>nat\<close>: the script only ever starts them at 0 and increments them, and the model does
  not cover a run of \<open>2 ^ 53\<close> connections, where a JavaScript number stops being exact.
\<close>

text \<open>
  The mute fields start as \<^verbatim>\<open>null\<close>; an \<^verbatim>\<open>update\<close> message that lacks the field
  stores \<^verbatim>\<open>undefined\<close>; the content script reports booleans.
\<close>

datatype jsflag = Null | Undefined | Flag bool

text \<open>JavaScript truthiness (\<^verbatim>\<open>meeting[property] ? 1 : 0\<close>) of such a value.\<close>

fun truthy :: "jsflag \<Rightarrow> bool" where
  "truthy (Flag b) = b"
| "truthy Null = False"
| "truthy Undefined = False"

text \<open>\<^verbatim>\<open>port.name\<close> and \<^verbatim>\<open>port.sender.tab\<close> (its \<^verbatim>\<open>id\<close> and \<^verbatim>\<open>windowId\<close>).\<close>

record Port =
  port_name :: string
  sender_tab :: "(int \<times> int) option"

text \<open>
  The fields of \<^verbatim>\<open>class Meeting\<close>. \<open>meeting_id\<close> is the field \<^verbatim>\<open>id\<close>, which is
  \<^verbatim>\<open>null\<close> (\<open>None\<close>) until \<^verbatim>\<open>Meetings.add\<close> assigns it; \<open>preferred\<close> is the
  field \<^verbatim>\<open>prefer\<close>.
\<close>

record Meeting =
  meeting_id :: "nat option"
  title :: "string option"
  port :: Port
  active :: bool
  preferred :: bool
  audioMuted :: jsflag
  videoMuted :: jsflag

text \<open>The constructor \<^verbatim>\<open>new Meeting(port)\<close>.\<close>

definition Meeting_new :: "Port \<Rightarrow> Meeting" where
  "Meeting_new p =
     \<lparr>meeting_id = None, title = None, port = p, active = False, preferred = False,
      audioMuted = Null, videoMuted = Null\<rparr>"

text \<open>
  \<^verbatim>\<open>class Meetings\<close>: the counter \<^verbatim>\<open>nextId\<close> and the \<^verbatim>\<open>Map\<close> \<^verbatim>\<open>meetings\<close>. A
  JavaScript \<^verbatim>\<open>Map\<close> iterates in insertion order, so the map is the list of its
  entries in that order.
\<close>

record Meetings =
  nextId :: nat
  meetings :: "(nat \<times> Meeting) list"

definition Meetings_new :: Meetings where
  "Meetings_new = \<lparr>nextId = 0, meetings = []\<rparr>"

subsection \<open>The operations of \<^verbatim>\<open>Map\<close>\<close>

text \<open>
  \<^verbatim>\<open>Map.prototype.set\<close>: a key already present keeps its place and gets the new
  value, a new key goes to the end.
\<close>

fun map_set :: "nat \<Rightarrow> 'v \<Rightarrow> (nat \<times> 'v) list \<Rightarrow> (nat \<times> 'v) list" where
  "map_set k v [] = [(k, v)]"
| "map_set k v ((k', v') # kvs) =
     (if k' = k then (k, v) # kvs else (k', v') # map_set k v kvs)"

text \<open>\<^verbatim>\<open>Map.prototype.delete\<close>: no entry for the key is left; an absent key changes nothing.\<close>

definition map_delete :: "nat \<Rightarrow> (nat \<times> 'v) list \<Rightarrow> (nat \<times> 'v) list" where
  "map_delete k kvs = filter (\<lambda>kv. fst kv \<noteq> k) kvs"

text \<open>The values in iteration order, as \<^verbatim>\<open>this.meetings.forEach\<close> visits them.\<close>

definition sessions :: "Meetings \<Rightarrow> Meeting list" where
  "sessions ms = map snd (meetings ms)"

subsection \<open>\<^verbatim>\<open>class Meetings\<close>\<close>

text \<open>
  Several methods end with \<^verbatim>\<open>badge.update()\<close>. The functions of this subsection are the
  change each method makes to the container; the refresh of the badge is the function
  \<open>Badge_update\<close> further down, applied to the state the method leaves.
\<close>

definition Meetings_size :: "Meetings \<Rightarrow> nat" where
  "Meetings_size ms = length (meetings ms)"

text \<open>\<^verbatim>\<open>add\<close>: \<^verbatim>\<open>meeting.id = this.nextId++; this.meetings.set(meeting.id, meeting)\<close>.\<close>

definition Meetings_add :: "Meetings \<Rightarrow> Meeting \<Rightarrow> Meetings" where
  "Meetings_add ms m =
     \<lparr>nextId = nextId ms + 1,
      meetings = map_set (nextId ms) (m\<lparr>meeting_id := Some (nextId ms)\<rparr>) (meetings ms)\<rparr>"

text \<open>
  \<^verbatim>\<open>remove\<close>: \<^verbatim>\<open>this.meetings.delete(meeting.id)\<close>. A meeting whose id is still
  \<^verbatim>\<open>null\<close> names no key of the map.
\<close>

definition Meetings_remove :: "Meetings \<Rightarrow> Meeting \<Rightarrow> Meetings" where
  "Meetings_remove ms m =
     (case meeting_id m of
        None \<Rightarrow> ms
      | Some i \<Rightarrow> ms\<lparr>meetings := map_delete i (meetings ms)\<rparr>)"

definition Meetings_get :: "Meetings \<Rightarrow> nat \<Rightarrow> Meeting option" where
  "Meetings_get ms i = map_of (meetings ms) i"

text \<open>
  The getter \<^verbatim>\<open>default\<close>: the loop overwrites \<^verbatim>\<open>ret\<close> at every meeting whose
  \<^verbatim>\<open>prefer\<close> is set, so it returns the last one.
\<close>

definition Meetings_default :: "Meetings \<Rightarrow> Meeting option" where
  "Meetings_default ms =
     fold (\<lambda>m ret. if preferred m then Some m else ret) (sessions ms) None"

text \<open>
  \<^verbatim>\<open>setDefault(id, value = true)\<close>: one pass over all meetings; the test
  \<^verbatim>\<open>meeting.id === id\<close> reads the meeting's own field.
\<close>

definition setDefault_one :: "nat \<Rightarrow> bool \<Rightarrow> Meeting \<Rightarrow> Meeting" where
  "setDefault_one i v m =
     (if meeting_id m = Some i then m\<lparr>preferred := v\<rparr>
      else if v \<and> preferred m then m\<lparr>preferred := False\<rparr>
      else m)"

definition Meetings_setDefault :: "Meetings \<Rightarrow> nat \<Rightarrow> bool \<Rightarrow> Meetings" where
  "Meetings_setDefault ms i v =
     ms\<lparr>meetings := map (\<lambda>kv. (fst kv, setDefault_one i v (snd kv))) (meetings ms)\<rparr>"

text \<open>
  \<^verbatim>\<open>countMeetings_(property)\<close>, with the property given as the function that reads
  its truthiness.
\<close>

definition Meetings_countMeetings :: "Meetings \<Rightarrow> (Meeting \<Rightarrow> bool) \<Rightarrow> nat" where
  "Meetings_countMeetings ms property =
     fold (\<lambda>m ret. ret + (if property m then 1 else 0)) (sessions ms) 0"

definition Meetings_numActive :: "Meetings \<Rightarrow> nat" where
  "Meetings_numActive ms = Meetings_countMeetings ms active"

definition Meetings_numAudioMuted :: "Meetings \<Rightarrow> nat" where
  "Meetings_numAudioMuted ms = Meetings_countMeetings ms (\<lambda>m. truthy (audioMuted m))"

definition Meetings_numVideoMuted :: "Meetings \<Rightarrow> nat" where
  "Meetings_numVideoMuted ms = Meetings_countMeetings ms (\<lambda>m. truthy (videoMuted m))"

datatype State = INACTIVE | MUTED | UNMUTED

definition Meetings_state :: "Meetings \<Rightarrow> State" where
  "Meetings_state ms =
     (if Meetings_size ms = 0 then INACTIVE
      else if Meetings_numAudioMuted ms = Meetings_size ms then MUTED else UNMUTED)"

text \<open>A template literal renders a count in decimal.\<close>

fun string_of_nat :: "nat \<Rightarrow> string" where
  "string_of_nat n =
     (if n < 10 then [''0123456789'' ! n]
      else string_of_nat (n div 10) @ [''0123456789'' ! (n mod 10)])"

declare string_of_nat.simps [simp del]

definition Meetings_summary :: "Meetings \<Rightarrow> string" where
  "Meetings_summary ms =
     (let size = Meetings_size ms;
          numAudioMuted = Meetings_numAudioMuted ms
      in if size = 0 then ''No meetings found. Please reload Google Meet pages to connect.''
         else if size = numAudioMuted then ''All meetings are muted.''
         else if numAudioMuted = 0 then ''No meetings are muted.''
         else string_of_nat size @ '' active meetings; '' @ string_of_nat numAudioMuted
              @ '' are muted.'')"

subsection \<open>The selection of \<^verbatim>\<open>processMeetings_\<close>\<close>

text \<open>
  \<^verbatim>\<open>processMeetings_(callback)\<close> calls \<^verbatim>\<open>meeting.autofocus()\<close> and
  \<^verbatim>\<open>callback(meeting)\<close> on meetings of the container. Neither call changes the
  container, so the method is modelled by the sequence of calls it makes.
\<close>

datatype call = Autofocus Meeting | Callback Meeting

text \<open>The body of the \<^verbatim>\<open>forEach\<close>, with the local variable \<^verbatim>\<open>focused\<close>.\<close>

fun processMeetings_loop :: "nat \<Rightarrow> bool \<Rightarrow> Meeting list \<Rightarrow> call list" where
  "processMeetings_loop numActive focused [] = []"
| "processMeetings_loop numActive focused (m # rest) =
     (if numActive = 0 \<or> active m then
        (if focused = False then
           Autofocus m # Callback m # processMeetings_loop numActive True rest
         else Callback m # processMeetings_loop numActive focused rest)
      else processMeetings_loop numActive focused rest)"

definition Meetings_processMeetings :: "Meetings \<Rightarrow> call list" where
  "Meetings_processMeetings ms =
     (case Meetings_default ms of
        Some p \<Rightarrow> [Autofocus p, Callback p]
      | None \<Rightarrow> processMeetings_loop (Meetings_numActive ms) False (sessions ms))"

subsection \<open>\<^verbatim>\<open>class Meeting\<close>: messages from the page\<close>

text \<open>
  A message that came across the port of a meeting: its \<^verbatim>\<open>command\<close> and the fields an
  \<^verbatim>\<open>update\<close> carries. A field the message lacks is \<open>None\<close> for the title and
  \<open>Undefined\<close> for a mute flag.
\<close>

record message =
  command :: string
  msg_title :: "string option"
  msg_audioMuted :: jsflag
  msg_videoMuted :: jsflag

text \<open>\<^verbatim>\<open>title.replace(/^Meet - /, '')\<close>.\<close>

definition strip_Meet :: "string \<Rightarrow> string" where
  "strip_Meet t = (if take 7 t = ''Meet - '' then drop 7 t else t)"

text \<open>
  The handlers return the meeting they leave and whether they called
  \<^verbatim>\<open>badge.update()\<close>.
\<close>

definition Meeting_message_log :: "Meeting \<Rightarrow> message \<Rightarrow> Meeting \<times> bool" where
  "Meeting_message_log m msg = (m, False)"

definition Meeting_message_joined :: "Meeting \<Rightarrow> message \<Rightarrow> Meeting \<times> bool" where
  "Meeting_message_joined m msg = (m\<lparr>active := True\<rparr>, True)"

definition Meeting_message_update :: "Meeting \<Rightarrow> message \<Rightarrow> Meeting \<times> bool" where
  "Meeting_message_update m msg =
     (let m1 = (case msg_title msg of
                  None \<Rightarrow> m
                | Some t \<Rightarrow> if t \<noteq> [] then m\<lparr>title := Some (strip_Meet t)\<rparr> else m);
          update = (audioMuted m1 \<noteq> msg_audioMuted msg \<or> videoMuted m1 \<noteq> msg_videoMuted msg);
          m2 = m1\<lparr>audioMuted := msg_audioMuted msg, videoMuted := msg_videoMuted msg\<rparr>
      in (m2, update))"

text \<open>
  \<^verbatim>\<open>recv\<close> looks the command up in the table built from the methods named
  \<^verbatim>\<open>message_*\<close>; any other command is logged and dropped.
\<close>

definition Meeting_recv :: "Meeting \<Rightarrow> message \<Rightarrow> Meeting \<times> bool" where
  "Meeting_recv m msg =
     (if command msg = ''log'' then Meeting_message_log m msg
      else if command msg = ''joined'' then Meeting_message_joined m msg
      else if command msg = ''update'' then Meeting_message_update m msg
      else (m, False))"

subsection \<open>The state of the background page\<close>

text \<open>
  The module variables \<^verbatim>\<open>autofocus\<close> and \<^verbatim>\<open>actionButtonBehavior\<close> (\<open>None\<close> when
  the setting is not stored), the container \<^verbatim>\<open>meetings\<close> and the field
  \<^verbatim>\<open>badge.popup\<close>.
\<close>

record world =
  registry :: Meetings
  autofocus :: bool
  actionButtonBehavior :: "string option"
  badge_popup :: "Port option"

text \<open>The page after \<^verbatim>\<open>initSettings\<close>, before any port has connected.\<close>

definition init_world :: "bool \<Rightarrow> string option \<Rightarrow> world" where
  "init_world af abb =
     \<lparr>registry = Meetings_new, autofocus = af, actionButtonBehavior = abb, badge_popup = None\<rparr>"

subsection \<open>\<^verbatim>\<open>class Badge\<close>\<close>

text \<open>The object \<^verbatim>\<open>update\<close> passes to \<^verbatim>\<open>set\<close>; only \<^verbatim>\<open>color\<close> is ever left out.\<close>

record settings =
  set_icon :: string
  set_title :: string
  set_popup :: string
  set_text :: string
  set_color :: "string option"

definition Badge_popupAction :: "world \<Rightarrow> string" where
  "Badge_popupAction w =
     (let popup = ''html/control.html'';
          b = actionButtonBehavior w
      in if b = Some ''popup'' then popup
         else if b = Some ''toggle-audio'' \<or> b = Some ''focus'' \<or> b = Some ''mute-audio''
           then []
         else if Meetings_default (registry w) \<noteq> None then []
         else if Meetings_numActive (registry w) > 1
                 \<or> (Meetings_numActive (registry w) = 0 \<and> Meetings_size (registry w) > 1)
           then popup
         else [])"

text \<open>
  The settings \<^verbatim>\<open>Badge.update\<close> computes from the state of the meetings;
  \<^verbatim>\<open>Badge.set\<close> hands each of them to the browser.
\<close>

definition Badge_settings :: "world \<Rightarrow> settings" where
  "Badge_settings w =
     (let state = Meetings_state (registry w);
          size = Meetings_size (registry w);
          summary = Meetings_summary (registry w)
      in case state of
           INACTIVE \<Rightarrow>
             \<lparr>set_icon = ''inactive'', set_title = summary, set_popup = ''html/inactive.html'',
              set_text = [], set_color = None\<rparr>
         | UNMUTED \<Rightarrow>
             (let numMuted = Meetings_numAudioMuted (registry w);
                  text = (if numMuted = 0 then string_of_nat size
                          else string_of_nat numMuted @ ''/'' @ string_of_nat size)
              in \<lparr>set_icon = ''mic-on'', set_title = summary, set_popup = Badge_popupAction w,
                  set_text = text, set_color = Some ''#219653''\<rparr>)
         | MUTED \<Rightarrow>
             \<lparr>set_icon = ''mic-off'', set_title = summary, set_popup = Badge_popupAction w,
              set_text = string_of_nat size, set_color = Some ''#d92f25''\<rparr>)"

text \<open>One entry of the reply to \<^verbatim>\<open>list\<close>.\<close>

record list_entry =
  e_id :: "nat option"
  e_name :: string
  e_title :: "string option"
  e_prefer :: bool
  e_active :: bool
  e_audioMuted :: jsflag
  e_videoMuted :: jsflag

definition list_result :: "Meetings \<Rightarrow> list_entry list" where
  "list_result ms =
     map (\<lambda>m. \<lparr>e_id = meeting_id m, e_name = port_name (port m), e_title = title m,
               e_prefer = preferred m, e_active = active m,
               e_audioMuted = audioMuted m, e_videoMuted = videoMuted m\<rparr>) (sessions ms)"

text \<open>
  What leaves the background page: a \<^verbatim>\<open>list\<close> reply posted to a port, a call of
  \<^verbatim>\<open>Badge.set\<close>, a call of \<^verbatim>\<open>Meeting.focus\<close> and a call of \<^verbatim>\<open>Meeting.send\<close> with
  the command and the \<^verbatim>\<open>audio\<close> and \<^verbatim>\<open>video\<close> fields of its data.
\<close>

datatype effect =
    PostList Port "list_entry list"
  | BadgeSet settings
  | Focus Meeting
  | Send Meeting string "bool option" "bool option"

text \<open>\<^verbatim>\<open>Badge.update\<close>: the refresh pushed to a connected popup, then the badge itself.\<close>

definition Badge_update :: "world \<Rightarrow> effect list" where
  "Badge_update w =
     (case badge_popup w of
        None \<Rightarrow> []
      | Some p \<Rightarrow> [PostList p (list_result (registry w))])
     @ [BadgeSet (Badge_settings w)]"

subsection \<open>The broadcast commands\<close>

definition Meeting_autofocus :: "bool \<Rightarrow> Meeting \<Rightarrow> effect list" where
  "Meeting_autofocus af m = (if af then [Focus m] else [])"

text \<open>
  \<^verbatim>\<open>toggle\<close>, \<^verbatim>\<open>mute\<close> and \<^verbatim>\<open>unmute\<close> of \<^verbatim>\<open>Meetings\<close> hand
  \<^verbatim>\<open>processMeetings_\<close> a callback that sends the command to the meeting.
\<close>

definition Meetings_send_all ::
  "bool \<Rightarrow> Meetings \<Rightarrow> string \<Rightarrow> bool option \<Rightarrow> bool option \<Rightarrow> effect list" where
  "Meetings_send_all af ms cmd audio video =
     concat (map (\<lambda>c. case c of
                         Autofocus m \<Rightarrow> Meeting_autofocus af m
                       | Callback m \<Rightarrow> [Send m cmd audio video])
                 (Meetings_processMeetings ms))"

definition Meetings_toggle ::
  "bool \<Rightarrow> Meetings \<Rightarrow> bool option \<Rightarrow> bool option \<Rightarrow> effect list" where
  "Meetings_toggle af ms audio video = Meetings_send_all af ms ''toggle'' audio video"

definition Meetings_mute ::
  "bool \<Rightarrow> Meetings \<Rightarrow> bool option \<Rightarrow> bool option \<Rightarrow> effect list" where
  "Meetings_mute af ms audio video = Meetings_send_all af ms ''mute'' audio video"

definition Meetings_unmute ::
  "bool \<Rightarrow> Meetings \<Rightarrow> bool option \<Rightarrow> bool option \<Rightarrow> effect list" where
  "Meetings_unmute af ms audio video = Meetings_send_all af ms ''unmute'' audio video"

text \<open>
  \<^verbatim>\<open>Meetings.focus\<close>: its callback keeps the variable \<^verbatim>\<open>focused\<close> and calls
  \<^verbatim>\<open>meeting.focus()\<close> only the first time it runs.
\<close>

fun focus_calls :: "bool \<Rightarrow> bool \<Rightarrow> call list \<Rightarrow> effect list" where
  "focus_calls af focused [] = []"
| "focus_calls af focused (Autofocus m # cs) = Meeting_autofocus af m @ focus_calls af focused cs"
| "focus_calls af focused (Callback m # cs) =
     (if focused = False then Focus m # focus_calls af True cs
      else focus_calls af focused cs)"

definition Meetings_focus :: "bool \<Rightarrow> Meetings \<Rightarrow> effect list" where
  "Meetings_focus af ms = focus_calls af False (Meetings_processMeetings ms)"

subsection \<open>The handlers of the background page\<close>

text \<open>
  A message from the popup or the options page: its \<^verbatim>\<open>command\<close>, \<^verbatim>\<open>id\<close> and
  \<^verbatim>\<open>prefer\<close> (\<open>None\<close> when the message has none). An \<^verbatim>\<open>id\<close> that is no number of a
  meeting behaves as any number that no meeting has.
\<close>

record ui_message =
  ui_command :: string
  ui_id :: nat
  ui_prefer :: "bool option"

text \<open>
  What can happen to the page: \<^verbatim>\<open>onConnect\<close>, \<^verbatim>\<open>onPopupDisconnect\<close>, the
  \<^verbatim>\<open>disconnect\<close> and \<^verbatim>\<open>recv\<close> listeners of the meeting with the given id,
  \<^verbatim>\<open>onInternalPageMessage\<close>, \<^verbatim>\<open>onActionClicked\<close>, \<^verbatim>\<open>onCommand\<close>,
  \<^verbatim>\<open>onContextMenu\<close> with the id of the menu item, and \<^verbatim>\<open>onStorageChanged\<close> with the
  new values of the two settings the page keeps (\<open>None\<close> for a setting that did not
  change).
\<close>

datatype event =
    Connect Port
  | PopupDisconnect
  | Disconnect nat
  | Recv nat message
  | InternalPageMessage ui_message
  | ActionClicked
  | Command string
  | ContextMenu string
  | StorageChanged "bool option" "string option option"

text \<open>
  The \<^verbatim>\<open>clear-default\<close> menu item writes \<^verbatim>\<open>prefer = false\<close> into the object the
  getter \<^verbatim>\<open>default\<close> returned: the last preferred meeting in iteration order.
\<close>

fun clear_default :: "(nat \<times> Meeting) list \<Rightarrow> (nat \<times> Meeting) list" where
  "clear_default [] = []"
| "clear_default (kv # kvs) =
     (if list_ex (\<lambda>kv'. preferred (snd kv')) kvs then kv # clear_default kvs
      else if preferred (snd kv) then (fst kv, (snd kv)\<lparr>preferred := False\<rparr>) # kvs
      else kv # kvs)"

text \<open>
  The change each handler makes to the state. The listeners of a meeting are bound to
  the object itself: once the meeting has left the container they change nothing the
  container holds. \<^verbatim>\<open>onActionClicked\<close>, \<^verbatim>\<open>onCommand\<close> and the commands
  \<^verbatim>\<open>list\<close>, \<^verbatim>\<open>focus\<close>, \<^verbatim>\<open>toggle\<close>, \<^verbatim>\<open>log\<close> and \<^verbatim>\<open>get-log\<close> of
  \<^verbatim>\<open>onInternalPageMessage\<close> only send messages and focus tabs.
\<close>

fun step :: "world \<Rightarrow> event \<Rightarrow> world" where
  "step w (Connect p) =
     (if port_name p = ''control'' then w\<lparr>badge_popup := Some p\<rparr>
      else if port_name p = ''options'' then w
      else w\<lparr>registry := Meetings_add (registry w) (Meeting_new p)\<rparr>)"
| "step w PopupDisconnect = w\<lparr>badge_popup := None\<rparr>"
| "step w (Disconnect i) =
     (case Meetings_get (registry w) i of
        None \<Rightarrow> w
      | Some m \<Rightarrow> w\<lparr>registry := Meetings_remove (registry w) m\<rparr>)"
| "step w (Recv i msg) =
     (case Meetings_get (registry w) i of
        None \<Rightarrow> w
      | Some m \<Rightarrow>
          w\<lparr>registry := (registry w)\<lparr>meetings :=
               map_set i (fst (Meeting_recv m msg)) (meetings (registry w))\<rparr>\<rparr>)"
| "step w (InternalPageMessage msg) =
     (if ui_command msg = ''default'' then
        w\<lparr>registry := Meetings_setDefault (registry w) (ui_id msg)
                         (case ui_prefer msg of None \<Rightarrow> True | Some v \<Rightarrow> v)\<rparr>
      else w)"
| "step w ActionClicked = w"
| "step w (Command c) = w"
| "step w (ContextMenu item) =
     (if item = ''clear-default'' then
        w\<lparr>registry := (registry w)\<lparr>meetings := clear_default (meetings (registry w))\<rparr>\<rparr>
      else w)"
| "step w (StorageChanged af abb) =
     w\<lparr>autofocus := (case af of None \<Rightarrow> autofocus w | Some v \<Rightarrow> v),
       actionButtonBehavior := (case abb of None \<Rightarrow> actionButtonBehavior w | Some v \<Rightarrow> v)\<rparr>"

definition run :: "world \<Rightarrow> event list \<Rightarrow> world" where
  "run w es = foldl step w es"

subsection \<open>Notions used to state the properties\<close>

text \<open>
  The calls the selection is specified to make for a list of targets in insertion
  order: the first target gets the autofocus signal, then every target gets the command.
\<close>

definition spec_calls :: "Meeting list \<Rightarrow> call list" where
  "spec_calls ts = (case ts of [] \<Rightarrow> [] | t # rest \<Rightarrow> Autofocus t # map Callback (t # rest))"

text \<open>
  What a broadcast of \<^verbatim>\<open>toggle\<close>, \<^verbatim>\<open>mute\<close> or \<^verbatim>\<open>unmute\<close> is specified to do
  for a list of targets in insertion order, given the user's autofocus setting: the
  first target is focused when the setting is on, then the command is sent to every
  target.
\<close>

definition spec_broadcast ::
  "bool \<Rightarrow> string \<Rightarrow> bool option \<Rightarrow> bool option \<Rightarrow> Meeting list \<Rightarrow> effect list" where
  "spec_broadcast af cmd audio video ts =
     (case ts of
        [] \<Rightarrow> []
      | t # rest \<Rightarrow> (if af then [Focus t] else []) @ map (\<lambda>m. Send m cmd audio video) (t # rest))"

text \<open>
  What a broadcast of \<^verbatim>\<open>focus\<close> does for a list of targets: after the autofocus of the
  first target, the first target is focused and no other target is.
\<close>

definition first_focus :: "bool \<Rightarrow> Meeting list \<Rightarrow> effect list" where
  "first_focus af ts =
     (case ts of [] \<Rightarrow> [] | t # rest \<Rightarrow> (if af then [Focus t] else []) @ [Focus t])"

text \<open>
  How often \<^verbatim>\<open>badge.update()\<close> runs while a meeting receives the given messages one
  after the other.
\<close>

fun recv_updates :: "Meeting \<Rightarrow> message list \<Rightarrow> nat" where
  "recv_updates m [] = 0"
| "recv_updates m (msg # msgs) =
     (if snd (Meeting_recv m msg) then 1 else 0) + recv_updates (fst (Meeting_recv m msg)) msgs"

text \<open>
  Sequences of \<^verbatim>\<open>add\<close> and \<^verbatim>\<open>remove\<close>, each \<^verbatim>\<open>add\<close> with a meeting of its own
  as in \<^verbatim>\<open>bind\<close>.
\<close>

datatype regop = Add Meeting | Remove Meeting

fun apply_op :: "Meetings \<Rightarrow> regop \<Rightarrow> Meetings" where
  "apply_op ms (Add m) = Meetings_add ms m"
| "apply_op ms (Remove m) = Meetings_remove ms m"

definition run_ops :: "Meetings \<Rightarrow> regop list \<Rightarrow> Meetings" where
  "run_ops ms ops = foldl apply_op ms ops"

text \<open>
  What an \<^verbatim>\<open>add\<close> is seen to put into the map: the entries of the map it leaves
  whose key the map did not hold before, each with the key and the meeting stored under
  it, whose field \<^verbatim>\<open>id\<close> is the id the session got.
\<close>

definition added_entries :: "Meetings \<Rightarrow> Meeting \<Rightarrow> (nat \<times> Meeting) list" where
  "added_entries ms m =
     filter (\<lambda>kv. fst kv \<notin> set (map fst (meetings ms))) (meetings (Meetings_add ms m))"

text \<open>The entries the \<^verbatim>\<open>add\<close>s of a sequence put into the map, in the order of the adds.\<close>

fun assigned :: "Meetings \<Rightarrow> regop list \<Rightarrow> (nat \<times> Meeting) list" where
  "assigned ms [] = []"
| "assigned ms (Add m # ops) = added_entries ms m @ assigned (Meetings_add ms m) ops"
| "assigned ms (Remove m # ops) = assigned (Meetings_remove ms m) ops"

text \<open>The meetings a sequence adds, in the order of the adds.\<close>

fun added_meetings :: "regop list \<Rightarrow> Meeting list" where
  "added_meetings [] = []"
| "added_meetings (Add m # ops) = m # added_meetings ops"
| "added_meetings (Remove m # ops) = added_meetings ops"

subsection \<open>What every state the handlers reach satisfies\<close>

text \<open>
  The keys of the map are distinct, every meeting is stored under its own id, and the
  counter is above every id in use.
\<close>

definition reg_inv :: "Meetings \<Rightarrow> bool" where
  "reg_inv ms \<longleftrightarrow>
     distinct (map fst (meetings ms))
     \<and> (\<forall>kv \<in> set (meetings ms). meeting_id (snd kv) = Some (fst kv) \<and> fst kv < nextId ms)"

text \<open>At most one meeting is marked as preferred.\<close>

definition pref_inv :: "Meetings \<Rightarrow> bool" where
  "pref_inv ms \<longleftrightarrow> length (filter preferred (sessions ms)) \<le> 1"

text \<open>The number a string of decimal digits stands for.\<close>

definition decimal_value :: "string \<Rightarrow> nat" where
  "decimal_value s = foldl (\<lambda>a c. 10 * a + (of_char c - 48)) 0 s"

subsection \<open>Example states\<close>

definition meet_port :: "string \<Rightarrow> Port" where
  "meet_port n = \<lparr>port_name = n, sender_tab = Some (7, 1)\<rparr>"

definition update_msg :: "jsflag \<Rightarrow> jsflag \<Rightarrow> message" where
  "update_msg a v =
     \<lparr>command = ''update'', msg_title = None, msg_audioMuted = a, msg_videoMuted = v\<rparr>"

definition joined_msg :: message where
  "joined_msg =
     \<lparr>command = ''joined'', msg_title = None, msg_audioMuted = Undefined,
      msg_videoMuted = Undefined\<rparr>"

definition default_msg :: "nat \<Rightarrow> bool \<Rightarrow> ui_message" where
  "default_msg i v = \<lparr>ui_command = ''default'', ui_id = i, ui_prefer = Some v\<rparr>"

definition three_events :: "event list" where
  "three_events =
     [Connect (meet_port ''/a''), Connect (meet_port ''/b''), Connect (meet_port ''/c'')]"

definition three_connected :: world where
  "three_connected = run (init_world True None) three_events"

definition three_one_muted :: world where
  "three_one_muted = step three_connected (Recv 1 (update_msg (Flag True) (Flag False)))"

definition three_one_active :: world where
  "three_one_active = step three_connected (Recv 1 joined_msg)"

definition three_one_preferred :: world where
  "three_one_preferred =
     step (step three_one_active (Recv 2 joined_msg)) (InternalPageMessage (default_msg 0 True))"

definition three_all_muted :: world where
  "three_all_muted =
     run three_one_muted
       [Recv 0 (update_msg (Flag True) (Flag True)), Recv 2 (update_msg (Flag True) Null)]"

definition example_ops :: "regop list" where
  "example_ops =
     [Add (Meeting_new (meet_port ''/a'')), Add (Meeting_new (meet_port ''/b'')),
      Remove ((Meeting_new (meet_port ''/b''))\<lparr>meeting_id := Some 1\<rparr>),
      Add (Meeting_new (meet_port ''/c''))]"

definition later_ops :: "regop list" where
  "later_ops = [Add (Meeting_new (meet_port ''/d''))]"

definition joined_events :: "event list" where
  "joined_events = three_events @ [Recv 1 joined_msg]"

definition later_events :: "event list" where
  "later_events =
     [Recv 1 (update_msg (Flag True) (Flag False)), InternalPageMessage (default_msg 1 True),
      ContextMenu ''clear-default'', Disconnect 0, Connect (meet_port ''/d'')]"

section \<open>Properties\<close>

subsection \<open>The example states, evaluated\<close>

lemma port_name_meet_port: "port_name (meet_port n) = n"
  by (simp add: meet_port_def)

lemma three_connected_registry:
  "registry three_connected =
     \<lparr>nextId = 3,
      meetings = [(0, (Meeting_new (meet_port ''/a''))\<lparr>meeting_id := Some 0\<rparr>),
                  (1, (Meeting_new (meet_port ''/b''))\<lparr>meeting_id := Some 1\<rparr>),
                  (2, (Meeting_new (meet_port ''/c''))\<lparr>meeting_id := Some 2\<rparr>)]\<rparr>"
  by (simp add: three_connected_def three_events_def run_def init_world_def Meetings_new_def
      Meetings_add_def port_name_meet_port)

lemma three_one_muted_registry:
  "registry three_one_muted =
     \<lparr>nextId = 3,
      meetings = [(0, (Meeting_new (meet_port ''/a''))\<lparr>meeting_id := Some 0\<rparr>),
                  (1, (Meeting_new (meet_port ''/b''))
                        \<lparr>meeting_id := Some 1, audioMuted := Flag True,
                         videoMuted := Flag False\<rparr>),
                  (2, (Meeting_new (meet_port ''/c''))\<lparr>meeting_id := Some 2\<rparr>)]\<rparr>"
  by (simp add: three_one_muted_def three_connected_registry Meetings_get_def Meeting_recv_def
      Meeting_message_update_def update_msg_def Meeting_new_def)

lemma three_all_muted_registry:
  "registry three_all_muted =
     \<lparr>nextId = 3,
      meetings = [(0, (Meeting_new (meet_port ''/a''))
                        \<lparr>meeting_id := Some 0, audioMuted := Flag True,
                         videoMuted := Flag True\<rparr>),
                  (1, (Meeting_new (meet_port ''/b''))
                        \<lparr>meeting_id := Some 1, audioMuted := Flag True,
                         videoMuted := Flag False\<rparr>),
                  (2, (Meeting_new (meet_port ''/c''))
                        \<lparr>meeting_id := Some 2, audioMuted := Flag True,
                         videoMuted := Null\<rparr>)]\<rparr>"
  by (simp add: three_all_muted_def run_def three_one_muted_registry Meetings_get_def
      Meeting_recv_def Meeting_message_update_def update_msg_def Meeting_new_def)

lemma three_one_active_registry:
  "registry three_one_active =
     \<lparr>nextId = 3,
      meetings = [(0, (Meeting_new (meet_port ''/a''))\<lparr>meeting_id := Some 0\<rparr>),
                  (1, (Meeting_new (meet_port ''/b''))\<lparr>meeting_id := Some 1, active := True\<rparr>),
                  (2, (Meeting_new (meet_port ''/c''))\<lparr>meeting_id := Some 2\<rparr>)]\<rparr>"
  by (simp add: three_one_active_def three_connected_registry Meetings_get_def Meeting_recv_def
      Meeting_message_joined_def joined_msg_def Meeting_new_def)

lemma three_one_preferred_registry:
  "registry three_one_preferred =
     \<lparr>nextId = 3,
      meetings = [(0, (Meeting_new (meet_port ''/a''))
                        \<lparr>meeting_id := Some 0, preferred := True\<rparr>),
                  (1, (Meeting_new (meet_port ''/b''))\<lparr>meeting_id := Some 1, active := True\<rparr>),
                  (2, (Meeting_new (meet_port ''/c''))\<lparr>meeting_id := Some 2, active := True\<rparr>)]\<rparr>"
  by (simp add: three_one_preferred_def three_one_active_registry Meetings_get_def
      Meeting_recv_def Meeting_message_joined_def joined_msg_def Meeting_new_def default_msg_def
      Meetings_setDefault_def setDefault_one_def)

subsection \<open>Counting and the preferred meeting\<close>

lemma fold_count:
  "fold (\<lambda>m ret. ret + (if p m then 1 else 0)) xs (a::nat) = a + length (filter p xs)"
  by (induction xs arbitrary: a) auto

lemma countMeetings_filter: "Meetings_countMeetings ms p = length (filter p (sessions ms))"
  by (simp add: Meetings_countMeetings_def fold_count)

lemma truthy_iff: "truthy f \<longleftrightarrow> f = Flag True"
  by (cases f) auto

lemma numAudioMuted_filter:
  "Meetings_numAudioMuted ms = length (filter (\<lambda>m. audioMuted m = Flag True) (sessions ms))"
  by (simp add: Meetings_numAudioMuted_def countMeetings_filter truthy_iff)

lemma numActive_filter: "Meetings_numActive ms = length (filter active (sessions ms))"
  by (simp add: Meetings_numActive_def countMeetings_filter)

lemma fold_default:
  "fold (\<lambda>m ret. if preferred m then Some m else ret) xs a =
     (if filter preferred xs = [] then a else Some (last (filter preferred xs)))"
  by (induction xs arbitrary: a) auto

lemma default_last:
  "Meetings_default ms =
     (if filter preferred (sessions ms) = [] then None
      else Some (last (filter preferred (sessions ms))))"
  by (simp add: Meetings_default_def fold_default)

lemma three_one_muted_counts:
  "Meetings_size (registry three_one_muted) = 3
   \<and> Meetings_numAudioMuted (registry three_one_muted) = 1"
  by (simp add: three_one_muted_registry Meetings_size_def numAudioMuted_filter sessions_def
      Meeting_new_def)

lemma three_connected_counts:
  "Meetings_size (registry three_connected) = 3
   \<and> Meetings_numAudioMuted (registry three_connected) = 0"
  by (simp add: three_connected_registry Meetings_size_def numAudioMuted_filter sessions_def
      Meeting_new_def)

lemma three_all_muted_counts:
  "Meetings_size (registry three_all_muted) = 3
   \<and> Meetings_numAudioMuted (registry three_all_muted) = 3"
  by (simp add: three_all_muted_registry Meetings_size_def numAudioMuted_filter sessions_def
      Meeting_new_def)

lemma Meetings_new_counts: "Meetings_size Meetings_new = 0"
  by (simp add: Meetings_size_def Meetings_new_def)

subsection \<open>Counts in decimal\<close>

lemma digit_char: "d < 10 \<Longrightarrow> of_char (''0123456789'' ! d) = (48::nat) + d"
proof -
  assume "d < 10"
  then have "d \<in> {0, 1, 2, 3, 4, 5, 6, 7, 8, 9}" by auto
  then show ?thesis by auto
qed

lemma decimal_value_snoc:
  "decimal_value (s @ [c]) = 10 * decimal_value s + (of_char c - 48)"
  by (simp add: decimal_value_def)

lemma decimal_string_of_nat: "decimal_value (string_of_nat n) = n"
proof (induction n rule: string_of_nat.induct)
  case (1 n)
  show ?case
  proof (cases "n < 10")
    case True
    then show ?thesis
      by (subst string_of_nat.simps) (simp add: decimal_value_def digit_char)
  next
    case False
    then have "decimal_value (string_of_nat n) =
        10 * decimal_value (string_of_nat (n div 10))
        + (of_char (''0123456789'' ! (n mod 10)) - 48)"
      by (subst string_of_nat.simps) (simp add: decimal_value_snoc)
    also have "\<dots> = 10 * (n div 10) + n mod 10"
      using False by (simp add: 1 digit_char)
    finally show ?thesis by simp
  qed
qed

subsection \<open>The summary text\<close>

text \<open>
  C5. The summary is the fixed text for an empty container, ``All meetings are muted.''
  when every meeting counts as muted, ``No meetings are muted.'' when none does, and
  otherwise the two counts in decimal inside ``\<open>size\<close> active meetings;
  \<open>numAudioMuted\<close> are muted.''; three meetings of which one is muted give
  ``3 active meetings; 1 are muted.''.
\<close>

theorem C5_summary:
  "(Meetings_size ms = 0 \<longrightarrow>
      Meetings_summary ms = ''No meetings found. Please reload Google Meet pages to connect.'')
   \<and> (0 < Meetings_size ms \<and> Meetings_numAudioMuted ms = Meetings_size ms \<longrightarrow>
      Meetings_summary ms = ''All meetings are muted.'')
   \<and> (0 < Meetings_size ms \<and> Meetings_numAudioMuted ms = 0 \<longrightarrow>
      Meetings_summary ms = ''No meetings are muted.'')
   \<and> (0 < Meetings_size ms \<and> Meetings_numAudioMuted ms \<noteq> Meetings_size ms
        \<and> Meetings_numAudioMuted ms \<noteq> 0 \<longrightarrow>
      Meetings_summary ms =
        string_of_nat (Meetings_size ms) @ '' active meetings; ''
        @ string_of_nat (Meetings_numAudioMuted ms) @ '' are muted.'')
   \<and> (Meetings_size ms = 3 \<and> Meetings_numAudioMuted ms = 1 \<longrightarrow>
      Meetings_summary ms = ''3 active meetings; 1 are muted.'')"
  by (auto simp: Meetings_summary_def Let_def string_of_nat.simps)

theorem C5_summary_witness:
  "Meetings_size Meetings_new = 0
   \<and> Meetings_summary Meetings_new
       = ''No meetings found. Please reload Google Meet pages to connect.''
   \<and> 0 < Meetings_size (registry three_all_muted)
   \<and> Meetings_numAudioMuted (registry three_all_muted) = Meetings_size (registry three_all_muted)
   \<and> Meetings_summary (registry three_all_muted) = ''All meetings are muted.''
   \<and> 0 < Meetings_size (registry three_connected)
   \<and> Meetings_numAudioMuted (registry three_connected) = 0
   \<and> Meetings_summary (registry three_connected) = ''No meetings are muted.''
   \<and> Meetings_size (registry three_one_muted) = 3
   \<and> Meetings_numAudioMuted (registry three_one_muted) = 1
   \<and> Meetings_summary (registry three_one_muted) = ''3 active meetings; 1 are muted.''"
  using C5_summary [of Meetings_new] C5_summary [of "registry three_all_muted"]
    C5_summary [of "registry three_connected"] C5_summary [of "registry three_one_muted"]
  by (simp add: three_one_muted_counts three_connected_counts three_all_muted_counts
      Meetings_new_counts string_of_nat.simps)

subsection \<open>A mute state that was never reported\<close>

text \<open>
  C10. \<^verbatim>\<open>numAudioMuted\<close> counts exactly the meetings whose \<^verbatim>\<open>audioMuted\<close> is
  \<^verbatim>\<open>true\<close>, so a meeting whose flag is still \<^verbatim>\<open>null\<close> counts as not muted; a
  container that is not empty and in which every flag is still \<^verbatim>\<open>null\<close> has no muted
  meeting, the state \<open>UNMUTED\<close> and the summary ``No meetings are muted.''.
\<close>

theorem C10_unknown_counts_as_unmuted:
  "Meetings_numAudioMuted ms = length (filter (\<lambda>m. audioMuted m = Flag True) (sessions ms))
   \<and> (meetings ms \<noteq> [] \<and> (\<forall>m \<in> set (sessions ms). audioMuted m = Null) \<longrightarrow>
        Meetings_numAudioMuted ms = 0 \<and> Meetings_state ms = UNMUTED
        \<and> Meetings_summary ms = ''No meetings are muted.'')"
proof -
  have "Meetings_numAudioMuted ms = 0"
    if "\<forall>m \<in> set (sessions ms). audioMuted m = Null"
    using that by (simp add: numAudioMuted_filter)
  moreover have "Meetings_size ms \<noteq> 0" if "meetings ms \<noteq> []"
    using that by (simp add: Meetings_size_def)
  ultimately show ?thesis
    by (auto simp: numAudioMuted_filter [symmetric] Meetings_state_def Meetings_summary_def Let_def)
qed

theorem C10_unknown_counts_as_unmuted_witness:
  "meetings (registry three_connected) \<noteq> []
   \<and> map audioMuted (sessions (registry three_connected)) = [Null, Null, Null]
   \<and> Meetings_numAudioMuted (registry three_connected) = 0
   \<and> Meetings_state (registry three_connected) = UNMUTED
   \<and> Meetings_summary (registry three_connected) = ''No meetings are muted.''"
  using C10_unknown_counts_as_unmuted [of "registry three_connected"]
  by (simp add: three_connected_registry sessions_def Meeting_new_def)

subsection \<open>The badge\<close>

lemma three_one_muted_state: "Meetings_state (registry three_one_muted) = UNMUTED"
  by (simp add: Meetings_state_def three_one_muted_counts)

lemma three_connected_state: "Meetings_state (registry three_connected) = UNMUTED"
  by (simp add: Meetings_state_def three_connected_counts)

lemma three_all_muted_state: "Meetings_state (registry three_all_muted) = MUTED"
  by (simp add: Meetings_state_def three_all_muted_counts)

text \<open>
  C8. In the state \<open>UNMUTED\<close> the badge gets the icon ``mic-on'', the green colour
  \<^verbatim>\<open>#219653\<close> and as text the size in decimal when no meeting is muted and
  ``\<open>numAudioMuted\<close>/\<open>size\<close>'' otherwise; in the state \<open>MUTED\<close> it gets the icon
  ``mic-off'', the size as text and the red colour \<^verbatim>\<open>#d92f25\<close>. These settings are what
  \<^verbatim>\<open>Badge.update\<close> hands to \<^verbatim>\<open>set\<close> last.
\<close>

theorem C8_badge:
  "(Meetings_state (registry w) = UNMUTED \<longrightarrow>
      set_icon (Badge_settings w) = ''mic-on''
      \<and> set_text (Badge_settings w) =
          (if Meetings_numAudioMuted (registry w) = 0
           then string_of_nat (Meetings_size (registry w))
           else string_of_nat (Meetings_numAudioMuted (registry w)) @ ''/''
                @ string_of_nat (Meetings_size (registry w)))
      \<and> set_color (Badge_settings w) = Some ''#219653'')
   \<and> (Meetings_state (registry w) = MUTED \<longrightarrow>
      set_icon (Badge_settings w) = ''mic-off''
      \<and> set_text (Badge_settings w) = string_of_nat (Meetings_size (registry w))
      \<and> set_color (Badge_settings w) = Some ''#d92f25'')
   \<and> last (Badge_update w) = BadgeSet (Badge_settings w)"
  by (simp add: Badge_settings_def Badge_update_def Let_def)

theorem C8_badge_witness:
  "Meetings_state (registry three_one_muted) = UNMUTED
   \<and> set_icon (Badge_settings three_one_muted) = ''mic-on''
   \<and> set_text (Badge_settings three_one_muted) = ''1/3''
   \<and> set_color (Badge_settings three_one_muted) = Some ''#219653''
   \<and> Meetings_state (registry three_connected) = UNMUTED
   \<and> set_text (Badge_settings three_connected) = ''3''
   \<and> Meetings_state (registry three_all_muted) = MUTED
   \<and> set_icon (Badge_settings three_all_muted) = ''mic-off''
   \<and> set_text (Badge_settings three_all_muted) = ''3''
   \<and> set_color (Badge_settings three_all_muted) = Some ''#d92f25''"
  using C8_badge [of three_one_muted] C8_badge [of three_connected] C8_badge [of three_all_muted]
  by (simp add: three_one_muted_state three_connected_state three_all_muted_state
      three_one_muted_counts three_connected_counts three_all_muted_counts string_of_nat.simps)

subsection \<open>Removing a meeting\<close>

lemma map_delete_absent: "i \<notin> fst ` set kvs \<Longrightarrow> map_delete i kvs = kvs"
  by (induction kvs) (auto simp: map_delete_def)

lemma map_delete_twice: "map_delete i (map_delete i kvs) = map_delete i kvs"
  by (simp add: map_delete_def)

text \<open>
  C7. \<^verbatim>\<open>remove\<close> has no failing branch. Removing a meeting whose id is no key of the
  map (also one whose id is still \<^verbatim>\<open>null\<close>) returns the container as it was, so the
  size and every meeting in it stay the same, and removing a meeting a second time
  changes nothing the first removal has not changed.
\<close>

theorem C7_remove_idempotent:
  "(meeting_id m \<notin> Some ` fst ` set (meetings ms) \<longrightarrow>
      Meetings_remove ms m = ms \<and> Meetings_size (Meetings_remove ms m) = Meetings_size ms)
   \<and> Meetings_remove (Meetings_remove ms m) m = Meetings_remove ms m"
  by (cases "meeting_id m")
     (auto simp: Meetings_remove_def map_delete_absent map_delete_twice image_iff)

theorem C7_remove_idempotent_witness:
  "Some 7 \<notin> Some ` fst ` set (meetings (registry three_connected))
   \<and> Meetings_remove (registry three_connected)
        ((Meeting_new (meet_port ''/x''))\<lparr>meeting_id := Some 7\<rparr>) = registry three_connected
   \<and> Meetings_size (Meetings_remove (registry three_connected)
        ((Meeting_new (meet_port ''/x''))\<lparr>meeting_id := Some 7\<rparr>)) = 3
   \<and> map fst (meetings (Meetings_remove (Meetings_remove (registry three_connected)
        ((Meeting_new (meet_port ''/b''))\<lparr>meeting_id := Some 1\<rparr>))
        ((Meeting_new (meet_port ''/b''))\<lparr>meeting_id := Some 1\<rparr>))) = [0, 2]"
  using C7_remove_idempotent [of "(Meeting_new (meet_port ''/x''))\<lparr>meeting_id := Some 7\<rparr>"
      "registry three_connected"]
    C7_remove_idempotent [of "(Meeting_new (meet_port ''/b''))\<lparr>meeting_id := Some 1\<rparr>"
      "registry three_connected"]
  by (simp add: three_connected_registry Meetings_size_def Meetings_remove_def map_delete_def
      Meeting_new_def)

subsection \<open>Marking a meeting that is not there\<close>

text \<open>
  C2 does not hold as the specification words it (marking an id that no meeting has
  changes no mark): with meeting 0 preferred and no meeting 7,
  \<^verbatim>\<open>setDefault(7, true)\<close> clears the mark of meeting 0.
\<close>

theorem C2_setDefault_absent_counterexample:
  "map meeting_id (sessions (registry three_one_preferred)) = [Some 0, Some 1, Some 2]
   \<and> map preferred (sessions (registry three_one_preferred)) = [True, False, False]
   \<and> map preferred (sessions (Meetings_setDefault (registry three_one_preferred) 7 True))
       = [False, False, False]
   \<and> map preferred (sessions (Meetings_setDefault (registry three_one_preferred) 7 True))
       \<noteq> map preferred (sessions (registry three_one_preferred))"
  by (simp add: three_one_preferred_registry sessions_def Meetings_setDefault_def
      setDefault_one_def Meeting_new_def)

text \<open>
  C2 as it holds. When no meeting has the id, \<^verbatim>\<open>setDefault(id, false)\<close> leaves the
  container as it is, and \<^verbatim>\<open>setDefault(id, true)\<close> clears the mark of every meeting and
  changes nothing else, so that no meeting is preferred afterwards.
\<close>

theorem C2_setDefault_absent:
  "(\<forall>m \<in> set (sessions ms). meeting_id m \<noteq> Some i) \<longrightarrow>
     Meetings_setDefault ms i False = ms
     \<and> Meetings_setDefault ms i True =
         ms\<lparr>meetings := map (\<lambda>kv. (fst kv, (snd kv)\<lparr>preferred := False\<rparr>)) (meetings ms)\<rparr>
     \<and> filter preferred (sessions (Meetings_setDefault ms i True)) = []"
  by (auto simp: Meetings_setDefault_def sessions_def setDefault_one_def map_idI
      filter_empty_conv)

theorem C2_setDefault_absent_witness:
  "map meeting_id (sessions (registry three_one_preferred)) = [Some 0, Some 1, Some 2]
   \<and> Meetings_setDefault (registry three_one_preferred) 7 False = registry three_one_preferred
   \<and> filter preferred (sessions (Meetings_setDefault (registry three_one_preferred) 7 True)) = []"
  using C2_setDefault_absent [of "registry three_one_preferred" 7]
  by (simp add: three_one_preferred_registry sessions_def Meeting_new_def)

subsection \<open>The selection of the targets\<close>

lemma loop_focused:
  "processMeetings_loop n True xs = map Callback (filter (\<lambda>m. n = 0 \<or> active m) xs)"
  by (induction xs) auto

lemma loop_unfocused:
  "processMeetings_loop n False xs = spec_calls (filter (\<lambda>m. n = 0 \<or> active m) xs)"
  by (induction xs) (auto simp: spec_calls_def loop_focused split: list.splits)

lemma processMeetings_no_default:
  assumes "filter preferred (sessions ms) = []"
  shows "Meetings_processMeetings ms =
           spec_calls (if filter active (sessions ms) = [] then sessions ms
                       else filter active (sessions ms))"
proof -
  have "Meetings_default ms = None"
    using assms by (simp add: default_last)
  moreover have "filter (\<lambda>m. Meetings_numActive ms = 0 \<or> active m) (sessions ms) =
      (if filter active (sessions ms) = [] then sessions ms else filter active (sessions ms))"
    by (simp add: numActive_filter)
  ultimately show ?thesis
    by (simp add: Meetings_processMeetings_def loop_unfocused)
qed

lemma processMeetings_default:
  assumes "filter preferred (sessions ms) \<noteq> []"
  shows "Meetings_processMeetings ms =
           [Autofocus (last (filter preferred (sessions ms))),
            Callback (last (filter preferred (sessions ms)))]"
  using assms by (simp add: Meetings_processMeetings_def default_last)

text \<open>
  What the broadcast commands do with the calls: \<^verbatim>\<open>toggle\<close>, \<^verbatim>\<open>mute\<close> and
  \<^verbatim>\<open>unmute\<close> send their command to every target; the callback of \<^verbatim>\<open>focus\<close> runs for
  every target and focuses the first one only.
\<close>

lemma send_all_targets:
  assumes "Meetings_processMeetings ms = spec_calls ts"
  shows "Meetings_send_all af ms cmd a v =
           (case ts of [] \<Rightarrow> []
            | t # rest \<Rightarrow> Meeting_autofocus af t @ map (\<lambda>m. Send m cmd a v) (t # rest))"
proof -
  have "concat (map (\<lambda>c. case c of Autofocus m \<Rightarrow> Meeting_autofocus af m
                                 | Callback m \<Rightarrow> [Send m cmd a v]) (map Callback xs))
        = map (\<lambda>m. Send m cmd a v) xs" for xs
    by (induction xs) auto
  then show ?thesis
    by (simp add: Meetings_send_all_def assms spec_calls_def split: list.splits)
qed

lemma focus_calls_focused: "focus_calls af True (map Callback xs) = []"
  by (induction xs) auto

lemma focus_first_target:
  assumes "Meetings_processMeetings ms = spec_calls ts"
  shows "Meetings_focus af ms =
           (case ts of [] \<Rightarrow> [] | t # rest \<Rightarrow> Meeting_autofocus af t @ [Focus t])"
  by (simp add: Meetings_focus_def assms spec_calls_def focus_calls_focused split: list.splits)

lemma broadcast_effects:
  assumes "Meetings_processMeetings ms = spec_calls ts"
  shows "Meetings_toggle af ms audio video = spec_broadcast af ''toggle'' audio video ts
    \<and> Meetings_mute af ms audio video = spec_broadcast af ''mute'' audio video ts
    \<and> Meetings_unmute af ms audio video = spec_broadcast af ''unmute'' audio video ts
    \<and> Meetings_focus af ms = first_focus af ts"
  by (simp add: Meetings_toggle_def Meetings_mute_def Meetings_unmute_def
      send_all_targets [OF assms] focus_first_target [OF assms] spec_broadcast_def
      first_focus_def Meeting_autofocus_def split: list.splits)

lemma processMeetings_default_calls:
  assumes "filter preferred (sessions ms) \<noteq> []"
  shows "Meetings_processMeetings ms = spec_calls [last (filter preferred (sessions ms))]"
  using assms by (simp add: processMeetings_default spec_calls_def)

text \<open>
  C1 does not hold for \<^verbatim>\<open>focus\<close> as the specification words it (every target
  receives the command): with three meetings of which none is preferred and none is
  active, all three are targets and the callback runs for each of them, but
  \<^verbatim>\<open>Meetings.focus\<close> focuses meeting 0 only (twice when the autofocus setting is on),
  and meetings 1 and 2 are not focused.
\<close>

theorem C1_focus_counterexample:
  "Meetings_processMeetings (registry three_connected)
     = [Autofocus ((Meeting_new (meet_port ''/a''))\<lparr>meeting_id := Some 0\<rparr>),
        Callback ((Meeting_new (meet_port ''/a''))\<lparr>meeting_id := Some 0\<rparr>),
        Callback ((Meeting_new (meet_port ''/b''))\<lparr>meeting_id := Some 1\<rparr>),
        Callback ((Meeting_new (meet_port ''/c''))\<lparr>meeting_id := Some 2\<rparr>)]
   \<and> Meetings_focus False (registry three_connected)
     = [Focus ((Meeting_new (meet_port ''/a''))\<lparr>meeting_id := Some 0\<rparr>)]
   \<and> Meetings_focus True (registry three_connected)
     = [Focus ((Meeting_new (meet_port ''/a''))\<lparr>meeting_id := Some 0\<rparr>),
        Focus ((Meeting_new (meet_port ''/a''))\<lparr>meeting_id := Some 0\<rparr>)]"
  by (simp add: three_connected_registry Meetings_focus_def Meetings_processMeetings_def
      default_last numActive_filter sessions_def Meeting_autofocus_def Meeting_new_def)

text \<open>
  C1 as it holds. The targets are the one preferred meeting when one is preferred (the
  last preferred meeting in insertion order, should there be several, which the handlers
  never produce), otherwise all meetings when none is active and the active meetings when
  some are. \<^verbatim>\<open>processMeetings_\<close> makes the autofocus call on the first target and
  then the callback on every target, in insertion order. For \<^verbatim>\<open>toggle\<close>,
  \<^verbatim>\<open>mute\<close> and \<^verbatim>\<open>unmute\<close> this focuses the first target when the autofocus
  setting is on and then sends the command to every target; for \<^verbatim>\<open>focus\<close> it focuses
  the first target and no other.
\<close>

theorem C1_broadcast_targets:
  "(\<forall>p. filter preferred (sessions ms) = [p] \<longrightarrow>
        Meetings_processMeetings ms = spec_calls [p]
        \<and> Meetings_toggle af ms audio video = spec_broadcast af ''toggle'' audio video [p]
        \<and> Meetings_mute af ms audio video = spec_broadcast af ''mute'' audio video [p]
        \<and> Meetings_unmute af ms audio video = spec_broadcast af ''unmute'' audio video [p]
        \<and> Meetings_focus af ms = first_focus af [p])
   \<and> (filter preferred (sessions ms) \<noteq> [] \<longrightarrow>
        Meetings_processMeetings ms = spec_calls [last (filter preferred (sessions ms))]
        \<and> Meetings_toggle af ms audio video = spec_broadcast af ''toggle'' audio video [last (filter preferred (sessions ms))]
        \<and> Meetings_mute af ms audio video = spec_broadcast af ''mute'' audio video [last (filter preferred (sessions ms))]
        \<and> Meetings_unmute af ms audio video = spec_broadcast af ''unmute'' audio video [last (filter preferred (sessions ms))]
        \<and> Meetings_focus af ms = first_focus af [last (filter preferred (sessions ms))])
   \<and> (filter preferred (sessions ms) = [] \<and> filter active (sessions ms) = [] \<longrightarrow>
        Meetings_processMeetings ms = spec_calls (sessions ms)
        \<and> Meetings_toggle af ms audio video = spec_broadcast af ''toggle'' audio video (sessions ms)
        \<and> Meetings_mute af ms audio video = spec_broadcast af ''mute'' audio video (sessions ms)
        \<and> Meetings_unmute af ms audio video = spec_broadcast af ''unmute'' audio video (sessions ms)
        \<and> Meetings_focus af ms = first_focus af (sessions ms))
   \<and> (filter preferred (sessions ms) = [] \<and> filter active (sessions ms) \<noteq> [] \<longrightarrow>
        Meetings_processMeetings ms = spec_calls (filter active (sessions ms))
        \<and> Meetings_toggle af ms audio video = spec_broadcast af ''toggle'' audio video (filter active (sessions ms))
        \<and> Meetings_mute af ms audio video = spec_broadcast af ''mute'' audio video (filter active (sessions ms))
        \<and> Meetings_unmute af ms audio video = spec_broadcast af ''unmute'' audio video (filter active (sessions ms))
        \<and> Meetings_focus af ms = first_focus af (filter active (sessions ms)))"
proof -
  have pref: "Meetings_processMeetings ms = spec_calls [last (filter preferred (sessions ms))]"
    if "filter preferred (sessions ms) \<noteq> []"
    using that by (rule processMeetings_default_calls)
  have pref1: "Meetings_processMeetings ms = spec_calls [p]"
    if "filter preferred (sessions ms) = [p]" for p
    using pref that by simp
  have all: "Meetings_processMeetings ms = spec_calls (sessions ms)"
    if "filter preferred (sessions ms) = []" "filter active (sessions ms) = []"
    using that by (simp add: processMeetings_no_default)
  have act: "Meetings_processMeetings ms = spec_calls (filter active (sessions ms))"
    if "filter preferred (sessions ms) = []" "filter active (sessions ms) \<noteq> []"
    using that by (simp add: processMeetings_no_default)
  show ?thesis
    using broadcast_effects [OF pref, of af audio video]
      broadcast_effects [OF pref1, of _ af audio video]
      broadcast_effects [OF all, of af audio video]
      broadcast_effects [OF act, of af audio video]
      pref pref1 all act
    by blast
qed

theorem C1_broadcast_targets_witness:
  "filter preferred (sessions (registry three_one_preferred))
     = [((Meeting_new (meet_port ''/a''))\<lparr>meeting_id := Some 0, preferred := True\<rparr>)]
   \<and> Meetings_processMeetings (registry three_one_preferred)
     = [Autofocus ((Meeting_new (meet_port ''/a''))\<lparr>meeting_id := Some 0, preferred := True\<rparr>),
        Callback ((Meeting_new (meet_port ''/a''))\<lparr>meeting_id := Some 0, preferred := True\<rparr>)]
   \<and> Meetings_toggle True (registry three_one_preferred) (Some True) None
     = [Focus ((Meeting_new (meet_port ''/a''))\<lparr>meeting_id := Some 0, preferred := True\<rparr>),
        Send ((Meeting_new (meet_port ''/a''))\<lparr>meeting_id := Some 0, preferred := True\<rparr>) ''toggle'' (Some True) None]
   \<and> Meetings_focus True (registry three_one_preferred)
     = [Focus ((Meeting_new (meet_port ''/a''))\<lparr>meeting_id := Some 0, preferred := True\<rparr>),
        Focus ((Meeting_new (meet_port ''/a''))\<lparr>meeting_id := Some 0, preferred := True\<rparr>)]
   \<and> filter preferred (sessions (registry three_connected)) = []
   \<and> filter active (sessions (registry three_connected)) = []
   \<and> Meetings_processMeetings (registry three_connected)
     = [Autofocus ((Meeting_new (meet_port ''/a''))\<lparr>meeting_id := Some 0\<rparr>),
        Callback ((Meeting_new (meet_port ''/a''))\<lparr>meeting_id := Some 0\<rparr>),
        Callback ((Meeting_new (meet_port ''/b''))\<lparr>meeting_id := Some 1\<rparr>),
        Callback ((Meeting_new (meet_port ''/c''))\<lparr>meeting_id := Some 2\<rparr>)]
   \<and> Meetings_mute True (registry three_connected) (Some True) (Some True)
     = [Focus ((Meeting_new (meet_port ''/a''))\<lparr>meeting_id := Some 0\<rparr>),
        Send ((Meeting_new (meet_port ''/a''))\<lparr>meeting_id := Some 0\<rparr>) ''mute'' (Some True) (Some True),
        Send ((Meeting_new (meet_port ''/b''))\<lparr>meeting_id := Some 1\<rparr>) ''mute'' (Some True) (Some True),
        Send ((Meeting_new (meet_port ''/c''))\<lparr>meeting_id := Some 2\<rparr>) ''mute'' (Some True) (Some True)]
   \<and> filter preferred (sessions (registry three_one_active)) = []
   \<and> filter active (sessions (registry three_one_active)) \<noteq> []
   \<and> Meetings_processMeetings (registry three_one_active)
     = [Autofocus ((Meeting_new (meet_port ''/b''))\<lparr>meeting_id := Some 1, active := True\<rparr>),
        Callback ((Meeting_new (meet_port ''/b''))\<lparr>meeting_id := Some 1, active := True\<rparr>)]
   \<and> Meetings_unmute False (registry three_one_active) None (Some True)
     = [Send ((Meeting_new (meet_port ''/b''))\<lparr>meeting_id := Some 1, active := True\<rparr>) ''unmute'' None (Some True)]
   \<and> Meetings_focus False (registry three_one_active)
     = [Focus ((Meeting_new (meet_port ''/b''))\<lparr>meeting_id := Some 1, active := True\<rparr>)]"
  using C1_broadcast_targets [of "registry three_one_preferred" True "Some True" None]
    C1_broadcast_targets [of "registry three_connected" True "Some True" "Some True"]
    C1_broadcast_targets [of "registry three_one_active" False None "Some True"]
  by (simp add: three_one_preferred_registry three_connected_registry three_one_active_registry
      sessions_def spec_calls_def spec_broadcast_def first_focus_def Meeting_new_def)

subsection \<open>Repeated reports of the mute state\<close>

lemma update_flag:
  "snd (Meeting_message_update m msg) \<longleftrightarrow>
     audioMuted m \<noteq> msg_audioMuted msg \<or> videoMuted m \<noteq> msg_videoMuted msg"
  by (simp add: Meeting_message_update_def Let_def split: option.splits)

lemma update_stored:
  "audioMuted (fst (Meeting_message_update m msg)) = msg_audioMuted msg
   \<and> videoMuted (fst (Meeting_message_update m msg)) = msg_videoMuted msg"
  by (simp add: Meeting_message_update_def Let_def split: option.splits)

lemma recv_update:
  "command msg = ''update'' \<Longrightarrow> Meeting_recv m msg = Meeting_message_update m msg"
  by (simp add: Meeting_recv_def)

text \<open>
  C6 does not hold as the specification words it in one part (two identical updates
  in a row refresh the badge exactly once): a meeting that has reported ``audio muted,
  video on'' and then gets the same report twice in a row refreshes the badge for
  neither of the two.
\<close>

theorem C6_update_debounce_counterexample:
  "recv_updates
     (fst (Meeting_recv (Meeting_new (meet_port ''/a'')) (update_msg (Flag True) (Flag False))))
     [update_msg (Flag True) (Flag False), update_msg (Flag True) (Flag False)] = 0
   \<and> recv_updates
     (fst (Meeting_recv (Meeting_new (meet_port ''/a'')) (update_msg (Flag True) (Flag False))))
     [update_msg (Flag True) (Flag False), update_msg (Flag True) (Flag False)] \<noteq> 1"
  by (simp add: Meeting_recv_def Meeting_message_update_def update_msg_def Meeting_new_def)

text \<open>
  C6 as it holds. An \<^verbatim>\<open>update\<close> refreshes the badge exactly when its \<^verbatim>\<open>audioMuted\<close> or
  its \<^verbatim>\<open>videoMuted\<close> differs from the stored value. Two identical updates in a row
  refresh it at most once: the second never does, and the first does exactly when it
  changes one of the two flags, as the first report of booleans to a new meeting always
  does. An update that repeats both stored flags, whatever its title, refreshes nothing.
\<close>

theorem C6_update_debounce:
  "(snd (Meeting_message_update m msg) \<longleftrightarrow>
      audioMuted m \<noteq> msg_audioMuted msg \<or> videoMuted m \<noteq> msg_videoMuted msg)
   \<and> (command msg = ''update'' \<longrightarrow>
        recv_updates m [msg, msg] =
          (if audioMuted m \<noteq> msg_audioMuted msg \<or> videoMuted m \<noteq> msg_videoMuted msg
           then 1 else 0)
        \<and> recv_updates (fst (Meeting_recv m msg)) [msg] = 0)
   \<and> (command msg = ''update'' \<and> msg_audioMuted msg \<noteq> Null \<longrightarrow>
        recv_updates (Meeting_new p) [msg, msg] = 1)
   \<and> (command msg = ''update'' \<and> msg_audioMuted msg = audioMuted m
        \<and> msg_videoMuted msg = videoMuted m \<longrightarrow>
        recv_updates m [msg] = 0)"
  by (auto simp: recv_update update_flag update_stored Meeting_new_def)

theorem C6_update_debounce_witness:
  "command (update_msg (Flag True) (Flag False)) = ''update''
   \<and> msg_audioMuted (update_msg (Flag True) (Flag False)) \<noteq> Null
   \<and> recv_updates (Meeting_new (meet_port ''/a''))
        [update_msg (Flag True) (Flag False), update_msg (Flag True) (Flag False)] = 1
   \<and> recv_updates
        ((Meeting_new (meet_port ''/a''))\<lparr>audioMuted := Flag True, videoMuted := Flag False\<rparr>)
        [(update_msg (Flag True) (Flag False))\<lparr>msg_title := Some ''Meet - standup''\<rparr>] = 0"
  using C6_update_debounce [of "Meeting_new (meet_port ''/a'')"
      "update_msg (Flag True) (Flag False)" "meet_port ''/a''"]
    C6_update_debounce
      [of "(Meeting_new (meet_port ''/a''))\<lparr>audioMuted := Flag True, videoMuted := Flag False\<rparr>"
        "(update_msg (Flag True) (Flag False))\<lparr>msg_title := Some ''Meet - standup''\<rparr>"
        "meet_port ''/a''"]
  by (simp add: update_msg_def)

subsection \<open>Facts about the map\<close>

lemma map_set_keys: "k \<in> fst ` set kvs \<Longrightarrow> map fst (map_set k v kvs) = map fst kvs"
  by (induction kvs) force+

lemma map_set_set: "set (map_set k v kvs) \<subseteq> insert (k, v) (set kvs)"
  by (induction kvs) (auto split: if_splits)

lemma map_of_map_set:
  "map_of (map_set k v kvs) = (map_of kvs)(k \<mapsto> v)"
  by (induction kvs) (auto simp: fun_eq_iff)

lemma map_of_map_delete:
  "map_of (map_delete k kvs) = (map_of kvs)(k := None)"
  by (induction kvs) (auto simp: fun_eq_iff map_delete_def)

lemma map_set_fresh: "k \<notin> fst ` set kvs \<Longrightarrow> map_set k v kvs = kvs @ [(k, v)]"
  by (induction kvs) auto

lemma map_of_map_snd:
  "map_of (map (\<lambda>kv. (fst kv, f (snd kv))) kvs) k = map_option f (map_of kvs k)"
  by (induction kvs) auto

lemma map_set_same:
  "map_of kvs i = Some m \<Longrightarrow> f m' = f m \<Longrightarrow>
     map (\<lambda>kv. f (snd kv)) (map_set i m' kvs) = map (\<lambda>kv. f (snd kv)) kvs"
  by (induction kvs) (auto split: if_splits)

subsection \<open>Ids\<close>

lemma reg_inv_new: "reg_inv Meetings_new"
  by (simp add: reg_inv_def Meetings_new_def)

lemma add_meetings:
  "reg_inv ms \<Longrightarrow>
   meetings (Meetings_add ms m) = meetings ms @ [(nextId ms, m\<lparr>meeting_id := Some (nextId ms)\<rparr>)]"
  by (auto simp: reg_inv_def Meetings_add_def intro!: map_set_fresh)

lemma nextId_remove: "nextId (Meetings_remove ms m) = nextId ms"
  by (simp add: Meetings_remove_def split: option.splits)

lemma nextId_add: "nextId (Meetings_add ms m) = Suc (nextId ms)"
  by (simp add: Meetings_add_def)

lemma reg_inv_add: "reg_inv ms \<Longrightarrow> reg_inv (Meetings_add ms m)"
proof -
  assume inv: "reg_inv ms"
  have "nextId (Meetings_add ms m) = Suc (nextId ms)"
    by (simp add: Meetings_add_def)
  with inv show ?thesis
    unfolding reg_inv_def add_meetings [OF inv] by (auto simp: less_Suc_eq)
qed

lemma reg_inv_remove: "reg_inv ms \<Longrightarrow> reg_inv (Meetings_remove ms m)"
  by (cases "meeting_id m")
     (auto simp: reg_inv_def Meetings_remove_def map_delete_def distinct_map_filter)

lemma reg_inv_apply_op: "reg_inv ms \<Longrightarrow> reg_inv (apply_op ms x)"
  by (cases x) (simp_all add: reg_inv_add reg_inv_remove)

lemma reg_inv_run_ops: "reg_inv ms \<Longrightarrow> reg_inv (run_ops ms ops)"
  unfolding run_ops_def by (induction ops arbitrary: ms) (simp_all add: reg_inv_apply_op)

lemma run_ops_Cons: "run_ops ms (x # ops) = run_ops (apply_op ms x) ops"
  by (simp add: run_ops_def)

lemma nextId_run_ops: "nextId ms \<le> nextId (run_ops ms ops)"
proof (induction ops arbitrary: ms)
  case Nil
  show ?case by (simp add: run_ops_def)
next
  case (Cons x ops)
  have "nextId ms \<le> nextId (apply_op ms x)"
    by (cases x) (simp_all add: nextId_add nextId_remove)
  also have "\<dots> \<le> nextId (run_ops (apply_op ms x) ops)"
    by (rule Cons.IH)
  finally show ?case by (simp add: run_ops_Cons)
qed

lemma reg_inv_ids: "reg_inv ms \<Longrightarrow> map meeting_id (sessions ms) = map Some (map fst (meetings ms))"
  by (simp add: reg_inv_def sessions_def)

lemma added_entries_inv:
  assumes "reg_inv ms"
  shows "added_entries ms m = [(nextId ms, m\<lparr>meeting_id := Some (nextId ms)\<rparr>)]"
proof -
  have old: "filter (\<lambda>kv. fst kv \<notin> fst ` set (meetings ms)) (meetings ms) = []"
    by (simp add: filter_empty_conv)
  have new: "nextId ms \<notin> fst ` set (meetings ms)"
    using assms by (auto simp: reg_inv_def)
  show ?thesis
    by (simp add: added_entries_def add_meetings [OF assms] old new)
qed

lemma nextId_run_ops_count:
  "nextId (run_ops ms ops) = nextId ms + length (added_meetings ops)"
proof (induction ops arbitrary: ms)
  case Nil
  show ?case by (simp add: run_ops_def)
next
  case (Cons x ops)
  show ?case
    by (cases x) (simp_all add: run_ops_Cons Cons.IH nextId_add nextId_remove)
qed

lemma upt_add_Suc: "[n ..< Suc (n + k)] = n # [Suc n ..< Suc (n + k)]"
  by (subst upt_conv_Cons) simp_all

lemma map_fst_zip_fun:
  "length xs = length ys \<Longrightarrow> map (\<lambda>x. f (fst x)) (zip xs ys) = map f xs"
  by (induction xs ys rule: list_induct2) auto

lemma assigned_zip:
  "reg_inv ms \<Longrightarrow>
     assigned ms ops =
       map (\<lambda>im. (fst im, (snd im)\<lparr>meeting_id := Some (fst im)\<rparr>))
         (zip [nextId ms ..< nextId ms + length (added_meetings ops)] (added_meetings ops))"
proof (induction ms ops rule: assigned.induct)
  case (1 ms)
  show ?case by simp
next
  case (2 ms m ops)
  have "assigned (Meetings_add ms m) ops =
      map (\<lambda>im. (fst im, (snd im)\<lparr>meeting_id := Some (fst im)\<rparr>))
        (zip [Suc (nextId ms) ..< Suc (nextId ms) + length (added_meetings ops)]
           (added_meetings ops))"
    using "2.IH" [OF reg_inv_add [OF "2.prems"]] by (simp only: nextId_add)
  then show ?case
    by (simp add: added_entries_inv [OF "2.prems"] upt_add_Suc del: upt_Suc)
next
  case (3 ms m ops)
  then show ?case
    by (simp add: reg_inv_remove nextId_remove)
qed

lemma assigned_keys:
  assumes "reg_inv ms"
  shows "map fst (assigned ms ops) = [nextId ms ..< nextId ms + length (added_meetings ops)]"
proof -
  have "map fst (assigned ms ops) =
      map fst (zip [nextId ms ..< nextId ms + length (added_meetings ops)] (added_meetings ops))"
    by (simp add: assigned_zip [OF assms] comp_def)
  also have "\<dots> = [nextId ms ..< nextId ms + length (added_meetings ops)]"
    by (rule map_fst_zip) simp
  finally show ?thesis .
qed

lemma assigned_id_fields:
  assumes "reg_inv ms"
  shows "map (\<lambda>kv. meeting_id (snd kv)) (assigned ms ops) = map Some (map fst (assigned ms ops))"
  by (simp add: assigned_zip [OF assms] comp_def map_fst_zip_fun)

lemma held_assigned:
  "reg_inv ms \<Longrightarrow>
     set (meetings (run_ops ms ops)) \<subseteq> set (meetings ms) \<union> set (assigned ms ops)"
proof (induction ms ops rule: assigned.induct)
  case (1 ms)
  show ?case by (simp add: run_ops_def)
next
  case (2 ms m ops)
  have "set (meetings (run_ops (Meetings_add ms m) ops))
          \<subseteq> set (meetings (Meetings_add ms m)) \<union> set (assigned (Meetings_add ms m) ops)"
    using "2.prems" by (intro "2.IH" reg_inv_add)
  then show ?case
    by (auto simp: run_ops_Cons add_meetings [OF "2.prems"] added_entries_inv [OF "2.prems"])
next
  case (3 ms m ops)
  have "set (meetings (run_ops (Meetings_remove ms m) ops))
          \<subseteq> set (meetings (Meetings_remove ms m)) \<union> set (assigned (Meetings_remove ms m) ops)"
    using "3.prems" by (intro "3.IH" reg_inv_remove)
  moreover have "set (meetings (Meetings_remove ms m)) \<subseteq> set (meetings ms)"
    by (cases "meeting_id m") (auto simp: Meetings_remove_def map_delete_def)
  ultimately show ?case
    by (auto simp: run_ops_Cons)
qed

text \<open>
  C4. After any sequence of \<^verbatim>\<open>add\<close> and \<^verbatim>\<open>remove\<close> on a new container, the size
  is the number of ids held, the ids held are distinct and each meeting carries the id it
  is stored under. The entries the adds were seen to put into the map are, in the order
  of the adds, the added meetings with the ids \<open>0, 1, 2, \<dots>\<close> in their field
  \<^verbatim>\<open>id\<close>, each stored under its id: the ids the sessions got are strictly increasing
  and without repetition. Every entry held is one of them, and every id a later add
  gives is greater than all ids given before, so the id of a removed meeting does not
  come back.
\<close>

theorem C4_ids:
  "Meetings_size (run_ops Meetings_new ops) = card (fst ` set (meetings (run_ops Meetings_new ops)))
   \<and> distinct (map fst (meetings (run_ops Meetings_new ops)))
   \<and> (\<forall>kv \<in> set (meetings (run_ops Meetings_new ops)). meeting_id (snd kv) = Some (fst kv))
   \<and> distinct (map meeting_id (sessions (run_ops Meetings_new ops)))
   \<and> assigned Meetings_new ops =
       map (\<lambda>im. (fst im, (snd im)\<lparr>meeting_id := Some (fst im)\<rparr>))
         (zip [0 ..< length (added_meetings ops)] (added_meetings ops))
   \<and> map fst (assigned Meetings_new ops) = [0 ..< length (added_meetings ops)]
   \<and> map (\<lambda>kv. meeting_id (snd kv)) (assigned Meetings_new ops)
       = map Some [0 ..< length (added_meetings ops)]
   \<and> sorted_wrt (<) (map fst (assigned Meetings_new ops))
   \<and> distinct (map fst (assigned Meetings_new ops))
   \<and> set (meetings (run_ops Meetings_new ops)) \<subseteq> set (assigned Meetings_new ops)
   \<and> (\<forall>i \<in> set (map fst (assigned (run_ops Meetings_new ops) later)).
         \<forall>j \<in> set (map fst (assigned Meetings_new ops)). j < i)"
proof -
  let ?r = "run_ops Meetings_new ops"
  have inv0: "reg_inv Meetings_new"
    by (rule reg_inv_new)
  have inv: "reg_inv ?r"
    by (simp add: reg_inv_run_ops reg_inv_new)
  have n0: "nextId Meetings_new = 0"
    by (simp add: Meetings_new_def)
  have keys: "map fst (assigned Meetings_new ops) = [0 ..< length (added_meetings ops)]"
    using assigned_keys [OF inv0, of ops] by (simp add: n0)
  have zip: "assigned Meetings_new ops =
       map (\<lambda>im. (fst im, (snd im)\<lparr>meeting_id := Some (fst im)\<rparr>))
         (zip [0 ..< length (added_meetings ops)] (added_meetings ops))"
    using assigned_zip [OF inv0, of ops] by (simp add: n0)
  have ids: "map (\<lambda>kv. meeting_id (snd kv)) (assigned Meetings_new ops)
       = map Some [0 ..< length (added_meetings ops)]"
    using assigned_id_fields [OF inv0, of ops] by (simp only: keys)
  have d: "distinct (map fst (meetings ?r))"
    using inv by (simp add: reg_inv_def)
  have size: "Meetings_size ?r = card (fst ` set (meetings ?r))"
    using distinct_card [OF d] by (simp add: Meetings_size_def)
  have dids: "distinct (map meeting_id (sessions ?r))"
    using d by (auto simp: reg_inv_ids [OF inv] distinct_map inj_on_def)
  have stored: "\<forall>kv \<in> set (meetings ?r). meeting_id (snd kv) = Some (fst kv)"
    using inv by (simp add: reg_inv_def)
  have held: "set (meetings ?r) \<subseteq> set (assigned Meetings_new ops)"
    using held_assigned [OF inv0, of ops] by (simp add: Meetings_new_def)
  have later: "\<forall>i \<in> set (map fst (assigned ?r later)).
         \<forall>j \<in> set (map fst (assigned Meetings_new ops)). j < i"
    unfolding keys assigned_keys [OF inv]
    by (auto simp: nextId_run_ops_count n0)
  have sorted: "sorted_wrt (<) (map fst (assigned Meetings_new ops))"
    and dist: "distinct (map fst (assigned Meetings_new ops))"
    unfolding keys by simp_all
  from size d stored dids zip keys ids sorted dist held later show ?thesis
    by blast
qed

theorem C4_ids_witness:
  "map fst (meetings (run_ops Meetings_new example_ops)) = [0, 2]
   \<and> map meeting_id (sessions (run_ops Meetings_new example_ops)) = [Some 0, Some 2]
   \<and> Meetings_size (run_ops Meetings_new example_ops) = 2
   \<and> map fst (assigned Meetings_new example_ops) = [0, 1, 2]
   \<and> map (\<lambda>kv. meeting_id (snd kv)) (assigned Meetings_new example_ops)
       = [Some 0, Some 1, Some 2]
   \<and> map (\<lambda>kv. port_name (port (snd kv))) (assigned Meetings_new example_ops)
       = [''/a'', ''/b'', ''/c'']
   \<and> map fst (assigned (run_ops Meetings_new example_ops) later_ops) = [3]"
  using C4_ids [of example_ops later_ops]
  by (simp add: example_ops_def later_ops_def run_ops_def Meetings_new_def Meetings_add_def
      Meetings_remove_def map_delete_def Meetings_size_def sessions_def Meeting_new_def
      added_entries_def port_name_meet_port)

subsection \<open>The handlers keep the ids in order\<close>

lemma reg_inv_map_set:
  assumes "reg_inv ms" and "map_of (meetings ms) i = Some m" and "meeting_id m' = meeting_id m"
  shows "reg_inv (ms\<lparr>meetings := map_set i m' (meetings ms)\<rparr>)"
proof -
  have mem: "(i, m) \<in> set (meetings ms)"
    using assms(2) by (rule map_of_SomeD)
  then have key: "i \<in> fst ` set (meetings ms)"
    by force
  have id: "meeting_id m' = Some i"
    using assms(1,3) mem by (auto simp: reg_inv_def)
  have lt: "i < nextId ms"
    using assms(1) mem by (auto simp: reg_inv_def)
  show ?thesis
    using assms(1) map_set_set [of i m' "meetings ms"] id lt
    by (auto simp: reg_inv_def map_set_keys [OF key])
qed

lemma Meeting_recv_id: "meeting_id (fst (Meeting_recv m msg)) = meeting_id m"
  by (simp add: Meeting_recv_def Meeting_message_log_def Meeting_message_joined_def
      Meeting_message_update_def Let_def split: option.splits)

lemma Meeting_recv_preferred: "preferred (fst (Meeting_recv m msg)) = preferred m"
  by (simp add: Meeting_recv_def Meeting_message_log_def Meeting_message_joined_def
      Meeting_message_update_def Let_def split: option.splits)

lemma Meeting_recv_active: "active m \<Longrightarrow> active (fst (Meeting_recv m msg))"
  by (simp add: Meeting_recv_def Meeting_message_log_def Meeting_message_joined_def
      Meeting_message_update_def Let_def split: option.splits)

lemma setDefault_one_id: "meeting_id (setDefault_one i v m) = meeting_id m"
  by (simp add: setDefault_one_def)

lemma setDefault_one_active: "active (setDefault_one i v m) = active m"
  by (simp add: setDefault_one_def)

lemma reg_inv_setDefault: "reg_inv ms \<Longrightarrow> reg_inv (Meetings_setDefault ms i v)"
  by (auto simp: reg_inv_def Meetings_setDefault_def comp_def setDefault_one_id)

lemma clear_default_keys: "map fst (clear_default kvs) = map fst kvs"
  by (induction kvs) auto

lemma clear_default_set:
  "kv \<in> set (clear_default kvs) \<Longrightarrow>
     \<exists>kv' \<in> set kvs. fst kv = fst kv' \<and> meeting_id (snd kv) = meeting_id (snd kv')
        \<and> active (snd kv) = active (snd kv')"
  by (induction kvs) (auto split: if_splits)

lemma reg_inv_clear_default:
  "reg_inv ms \<Longrightarrow> reg_inv (ms\<lparr>meetings := clear_default (meetings ms)\<rparr>)"
  by (auto simp: reg_inv_def clear_default_keys dest!: clear_default_set)

lemma reg_inv_step: "reg_inv (registry w) \<Longrightarrow> reg_inv (registry (step w e))"
proof (cases e)
  case (Recv i msg)
  assume "reg_inv (registry w)"
  then show ?thesis
    by (auto simp: Recv Meetings_get_def Meeting_recv_id intro: reg_inv_map_set
        split: option.splits)
qed (auto simp: reg_inv_add reg_inv_remove reg_inv_setDefault reg_inv_clear_default
      split: option.splits)

lemma reg_inv_run: "reg_inv (registry w) \<Longrightarrow> reg_inv (registry (run w es))"
  unfolding run_def by (induction es arbitrary: w) (simp_all add: reg_inv_step)

lemma reg_inv_init: "reg_inv (registry (init_world af abb))"
  by (simp add: init_world_def reg_inv_new)

subsection \<open>At most one preferred meeting\<close>

lemma filter_eq_le1:
  "distinct (map g xs) \<Longrightarrow> length (filter (\<lambda>x. g x = a) xs) \<le> 1"
  by (induction xs) (auto simp: filter_empty_conv image_iff)

lemma filter_eq_single:
  "distinct (map g xs) \<Longrightarrow> a \<in> g ` set xs \<Longrightarrow> map g (filter (\<lambda>x. g x = a) xs) = [a]"
  by (induction xs) (auto simp: filter_empty_conv image_iff)

lemma filter_map_le:
  "(\<And>x. P (f x) \<Longrightarrow> P x) \<Longrightarrow> length (filter P (map f xs)) \<le> length (filter P xs)"
  by (induction xs) (auto simp: le_SucI)

lemma setDefault_one_True: "preferred (setDefault_one i True m) \<longleftrightarrow> meeting_id m = Some i"
  by (simp add: setDefault_one_def)

lemma setDefault_one_False: "preferred (setDefault_one i False m) \<Longrightarrow> preferred m"
  by (simp add: setDefault_one_def split: if_splits)

lemma sessions_setDefault:
  "sessions (Meetings_setDefault ms i v) = map (setDefault_one i v) (sessions ms)"
  by (simp add: Meetings_setDefault_def sessions_def comp_def)

lemma reg_inv_distinct_ids: "reg_inv ms \<Longrightarrow> distinct (map meeting_id (sessions ms))"
  by (auto simp: reg_inv_def sessions_def distinct_map inj_on_def comp_def)

lemma pref_inv_setDefault:
  assumes "reg_inv ms" and "pref_inv ms"
  shows "pref_inv (Meetings_setDefault ms i v)"
proof (cases v)
  case True
  have "filter preferred (map (setDefault_one i True) (sessions ms)) =
        map (setDefault_one i True) (filter (\<lambda>m. meeting_id m = Some i) (sessions ms))"
    by (simp add: filter_map comp_def setDefault_one_True)
  then show ?thesis
    using filter_eq_le1 [OF reg_inv_distinct_ids [OF assms(1)], of "Some i"]
    by (simp add: pref_inv_def sessions_setDefault True)
next
  case False
  have "length (filter preferred (map (setDefault_one i False) (sessions ms)))
          \<le> length (filter preferred (sessions ms))"
    by (rule filter_map_le) (rule setDefault_one_False)
  with assms(2) show ?thesis
    by (simp add: pref_inv_def sessions_setDefault False)
qed

lemma setDefault_True_only:
  assumes "reg_inv ms" and "j \<in> fst ` set (meetings ms)"
  shows "map meeting_id (filter preferred (sessions (Meetings_setDefault ms j True))) = [Some j]"
proof -
  have "Some j \<in> meeting_id ` set (sessions ms)"
    using assms by (force simp: reg_inv_def sessions_def)
  then have "map meeting_id (filter (\<lambda>m. meeting_id m = Some j) (sessions ms)) = [Some j]"
    by (rule filter_eq_single [OF reg_inv_distinct_ids [OF assms(1)]])
  then show ?thesis
    by (simp add: sessions_setDefault filter_map comp_def setDefault_one_True setDefault_one_id)
qed

lemma keys_setDefault: "map fst (meetings (Meetings_setDefault ms i v)) = map fst (meetings ms)"
  by (simp add: Meetings_setDefault_def comp_def)

lemma pref_inv_add:
  "reg_inv ms \<Longrightarrow> pref_inv ms \<Longrightarrow> pref_inv (Meetings_add ms (Meeting_new p))"
  by (simp add: pref_inv_def sessions_def add_meetings Meeting_new_def)

lemma filter_snd_filter_le:
  "length (filter P (map snd (filter Q kvs))) \<le> length (filter P (map snd kvs))"
  by (induction kvs) (auto simp: le_SucI)

lemma pref_inv_remove: "pref_inv ms \<Longrightarrow> pref_inv (Meetings_remove ms m)"
proof (cases "meeting_id m")
  case None
  assume "pref_inv ms"
  then show ?thesis by (simp add: Meetings_remove_def None)
next
  case (Some i)
  assume "pref_inv ms"
  moreover have "length (filter preferred (map snd (map_delete i (meetings ms))))
                   \<le> length (filter preferred (map snd (meetings ms)))"
    unfolding map_delete_def by (rule filter_snd_filter_le)
  ultimately show ?thesis
    by (simp add: pref_inv_def Meetings_remove_def Some sessions_def)
qed

lemma filter_via_map:
  "map f xs = map f ys \<Longrightarrow> length (filter f xs) = length (filter f ys)"
proof -
  assume "map f xs = map f ys"
  then have "filter id (map f xs) = filter id (map f ys)" by simp
  then have "length (filter id (map f xs)) = length (filter id (map f ys))" by simp
  then show ?thesis by (simp add: filter_map comp_def)
qed

lemma pref_inv_map_set:
  assumes "pref_inv ms" and "map_of (meetings ms) i = Some m" and "preferred m' = preferred m"
  shows "pref_inv (ms\<lparr>meetings := map_set i m' (meetings ms)\<rparr>)"
proof -
  have "map preferred (map snd (map_set i m' (meetings ms))) = map preferred (map snd (meetings ms))"
    using map_set_same [OF assms(2), of preferred m'] assms(3) by (simp add: comp_def)
  then have "length (filter preferred (map snd (map_set i m' (meetings ms))))
           = length (filter preferred (map snd (meetings ms)))"
    by (rule filter_via_map)
  with assms(1) show ?thesis
    by (simp add: pref_inv_def sessions_def)
qed

lemma clear_default_le:
  "length (filter preferred (map snd (clear_default kvs)))
     \<le> length (filter preferred (map snd kvs))"
  by (induction kvs) (auto simp: le_SucI)

lemma pref_inv_clear_default:
  "pref_inv ms \<Longrightarrow> pref_inv (ms\<lparr>meetings := clear_default (meetings ms)\<rparr>)"
  using clear_default_le [of "meetings ms"] by (simp add: pref_inv_def sessions_def)

lemma pref_inv_step:
  assumes "reg_inv (registry w)" and "pref_inv (registry w)"
  shows "pref_inv (registry (step w e))"
proof (cases e)
  case (Recv i msg)
  show ?thesis
    using assms(2)
    by (auto simp: Recv Meetings_get_def Meeting_recv_preferred intro: pref_inv_map_set
        split: option.splits)
qed (use assms in \<open>auto simp: pref_inv_add pref_inv_remove pref_inv_setDefault
      pref_inv_clear_default split: option.splits\<close>)

lemma invs_run:
  "reg_inv (registry w) \<Longrightarrow> pref_inv (registry w) \<Longrightarrow>
     reg_inv (registry (run w es)) \<and> pref_inv (registry (run w es))"
  unfolding run_def
  by (induction es arbitrary: w) (simp_all add: reg_inv_step pref_inv_step)

lemma pref_inv_init: "pref_inv (registry (init_world af abb))"
  by (simp add: init_world_def pref_inv_def sessions_def Meetings_new_def)

text \<open>
  C3. Whatever the handlers have done since the page started, at most one meeting is
  preferred; and marking one present meeting and then another present meeting as
  preferred leaves exactly the second one preferred.
\<close>

theorem C3_one_preferred:
  "length (filter preferred (sessions (registry (run (init_world af abb) es)))) \<le> 1
   \<and> (i \<in> fst ` set (meetings (registry (run (init_world af abb) es)))
        \<and> j \<in> fst ` set (meetings (registry (run (init_world af abb) es))) \<longrightarrow>
      map meeting_id
        (filter preferred
           (sessions (Meetings_setDefault
              (Meetings_setDefault (registry (run (init_world af abb) es)) i True) j True)))
        = [Some j])"
proof -
  let ?ms = "registry (run (init_world af abb) es)"
  have inv: "reg_inv ?ms" and pref: "pref_inv ?ms"
    using invs_run [OF reg_inv_init pref_inv_init] by blast+
  have "reg_inv (Meetings_setDefault ?ms i True)"
    using inv by (rule reg_inv_setDefault)
  moreover have "j \<in> fst ` set (meetings (Meetings_setDefault ?ms i True))"
    if "j \<in> fst ` set (meetings ?ms)"
    using that keys_setDefault [of ?ms i True] by (metis set_map)
  ultimately show ?thesis
    using pref by (auto simp: pref_inv_def intro!: setDefault_True_only)
qed

theorem C3_one_preferred_witness:
  "0 \<in> fst ` set (meetings (registry (run (init_world True None) three_events)))
   \<and> 1 \<in> fst ` set (meetings (registry (run (init_world True None) three_events)))
   \<and> length (filter preferred (sessions (registry (run (init_world True None) three_events))))
       \<le> 1
   \<and> map meeting_id
        (filter preferred
           (sessions (Meetings_setDefault
              (Meetings_setDefault (registry (run (init_world True None) three_events)) 0 True)
              1 True)))
       = [Some 1]"
  using C3_one_preferred [of True None three_events 0 1]
  by (simp add: three_connected_def [symmetric] three_connected_registry)

subsection \<open>A joined meeting stays active\<close>

lemma map_of_setDefault:
  "map_of (meetings (Meetings_setDefault ms i v)) k =
     map_option (setDefault_one i v) (map_of (meetings ms) k)"
  by (simp add: Meetings_setDefault_def map_of_map_snd)

lemma map_of_clear_default:
  "map_of (clear_default kvs) k = Some m' \<Longrightarrow>
     \<exists>m. map_of kvs k = Some m \<and> active m' = active m"
proof (induction kvs)
  case Nil
  then show ?case by simp
next
  case (Cons kv kvs)
  show ?case
  proof (cases "list_ex (\<lambda>kv'. preferred (snd kv')) kvs")
    case True
    with Cons show ?thesis
      by (cases "fst kv = k") simp_all
  next
    case False
    with Cons.prems show ?thesis
      by (cases "fst kv = k"; cases "preferred (snd kv)") auto
  qed
qed

lemma map_of_clear_default_None:
  "map_of kvs k = None \<Longrightarrow> map_of (clear_default kvs) k = None"
  unfolding map_of_eq_None_iff using clear_default_keys [of kvs] by (metis set_map)

lemma get_remove:
  "Meetings_get (Meetings_remove ms m) k = Some m' \<Longrightarrow> Meetings_get ms k = Some m'"
  by (cases "meeting_id m")
     (auto simp: Meetings_get_def Meetings_remove_def map_of_map_delete split: if_splits)

lemma get_remove_None:
  "Meetings_get ms k = None \<Longrightarrow> Meetings_get (Meetings_remove ms m) k = None"
  by (cases "meeting_id m")
     (auto simp: Meetings_get_def Meetings_remove_def map_of_map_delete)

lemma get_add:
  "Meetings_get (Meetings_add ms m) k =
     (if k = nextId ms then Some (m\<lparr>meeting_id := Some (nextId ms)\<rparr>) else Meetings_get ms k)"
  by (simp add: Meetings_get_def Meetings_add_def map_of_map_set)

lemma get_lt: "reg_inv ms \<Longrightarrow> Meetings_get ms k = Some m \<Longrightarrow> k < nextId ms"
  by (auto simp: reg_inv_def Meetings_get_def dest!: map_of_SomeD)

lemma step_keeps_active:
  assumes "reg_inv (registry w)"
    and "Meetings_get (registry w) k = Some m" and "active m"
    and "Meetings_get (registry (step w e)) k = Some m'"
  shows "active m'"
proof (cases e)
  case (Connect p)
  have "k \<noteq> nextId (registry w)"
    using get_lt [OF assms(1,2)] by simp
  with assms(2-4) show ?thesis
    by (auto simp: Connect get_add split: if_splits)
next
  case (Disconnect i)
  with assms(2-4) show ?thesis
    by (auto split: option.splits dest: get_remove)
next
  case (Recv i msg)
  with assms(2-4) show ?thesis
    by (auto simp: Meetings_get_def map_of_map_set Meeting_recv_active
        split: option.splits if_splits)
next
  case (InternalPageMessage msg)
  with assms(2-4) show ?thesis
    by (auto simp: Meetings_get_def map_of_setDefault setDefault_one_active split: if_splits)
next
  case (ContextMenu item)
  with assms(2-4) show ?thesis
    by (auto simp: Meetings_get_def split: if_splits dest: map_of_clear_default)
qed (use assms in auto)

lemma step_stays_absent:
  assumes "k < nextId (registry w)" and "Meetings_get (registry w) k = None"
  shows "Meetings_get (registry (step w e)) k = None"
proof (cases e)
  case (Connect p)
  with assms show ?thesis
    by (auto simp: get_add)
next
  case (Disconnect i)
  with assms show ?thesis
    by (auto split: option.splits intro: get_remove_None)
next
  case (Recv i msg)
  with assms show ?thesis
    by (auto simp: Meetings_get_def map_of_map_set split: option.splits)
next
  case (InternalPageMessage msg)
  with assms show ?thesis
    by (auto simp: Meetings_get_def map_of_setDefault)
next
  case (ContextMenu item)
  with assms show ?thesis
    by (auto simp: Meetings_get_def intro: map_of_clear_default_None)
qed (use assms in auto)

lemma nextId_step: "nextId (registry w) \<le> nextId (registry (step w e))"
  by (cases e)
     (auto simp: nextId_add nextId_remove Meetings_setDefault_def split: option.splits)

lemma run_Cons: "run w (e # es) = run (step w e) es"
  by (simp add: run_def)

lemma run_append: "run w (es @ es') = run (run w es) es'"
  by (simp add: run_def)

lemma run_stays_absent:
  "k < nextId (registry w) \<Longrightarrow> Meetings_get (registry w) k = None \<Longrightarrow>
     Meetings_get (registry (run w es)) k = None"
proof (induction es arbitrary: w)
  case Nil
  then show ?case by (simp add: run_def)
next
  case (Cons e es)
  have "k < nextId (registry (step w e))"
    using Cons.prems(1) nextId_step [of w e] by simp
  moreover have "Meetings_get (registry (step w e)) k = None"
    using Cons.prems by (rule step_stays_absent)
  ultimately show ?case
    by (simp add: run_Cons Cons.IH)
qed

lemma run_keeps_active:
  "reg_inv (registry w) \<Longrightarrow> Meetings_get (registry w) k = Some m \<Longrightarrow> active m \<Longrightarrow>
     Meetings_get (registry (run w es)) k = Some m' \<Longrightarrow> active m'"
proof (induction es arbitrary: w m)
  case Nil
  then show ?case by (simp add: run_def)
next
  case (Cons e es)
  have lt: "k < nextId (registry (step w e))"
    using get_lt [OF Cons.prems(1,2)] nextId_step [of w e] by simp
  show ?case
  proof (cases "Meetings_get (registry (step w e)) k")
    case None
    with lt have "Meetings_get (registry (run (step w e) es)) k = None"
      by (simp add: run_stays_absent)
    with Cons.prems(4) show ?thesis
      by (simp add: run_Cons)
  next
    case (Some m1)
    have "active m1"
      using Cons.prems(1-3) Some by (rule step_keeps_active)
    moreover have "reg_inv (registry (step w e))"
      using Cons.prems(1) by (rule reg_inv_step)
    ultimately show ?thesis
      using Cons.IH [of "step w e" m1] Some Cons.prems(4) by (simp add: run_Cons)
  qed
qed

text \<open>
  C9. A new meeting is not active, and \<^verbatim>\<open>joined\<close> makes the meeting it is sent to
  active. If a meeting is active at some moment and the container still holds a meeting
  under its id after any further handlers have run (ids are not handed out twice, so it
  is the same meeting), that meeting is active.
\<close>

theorem C9_active_never_reverts:
  "(Meetings_get (registry (run (init_world af abb) es)) k = Some m \<and> active m
      \<and> Meetings_get (registry (run (init_world af abb) (es @ es'))) k = Some m' \<longrightarrow> active m')
   \<and> (command msg = ''joined'' \<and> Meetings_get (registry w) k = Some m0 \<longrightarrow>
        Meetings_get (registry (step w (Recv k msg))) k = Some (m0\<lparr>active := True\<rparr>))
   \<and> \<not> active (Meeting_new p)"
proof -
  have "reg_inv (registry (run (init_world af abb) es))"
    using reg_inv_init by (rule reg_inv_run)
  then have "active m'"
    if "Meetings_get (registry (run (init_world af abb) es)) k = Some m" "active m"
       "Meetings_get (registry (run (init_world af abb) (es @ es'))) k = Some m'"
    using that by (auto simp: run_append intro: run_keeps_active)
  moreover have "Meetings_get (registry (step w (Recv k msg))) k = Some (m0\<lparr>active := True\<rparr>)"
    if "command msg = ''joined''" "Meetings_get (registry w) k = Some m0"
    using that
    by (simp add: Meetings_get_def map_of_map_set Meeting_recv_def Meeting_message_joined_def)
  ultimately show ?thesis
    by (auto simp: Meeting_new_def)
qed

lemma joined_events_run: "run (init_world True None) joined_events = three_one_active"
  by (simp add: joined_events_def run_def three_one_active_def three_connected_def)

lemma later_events_registry:
  "registry (run three_one_active later_events) =
     \<lparr>nextId = 4,
      meetings = [(1, (Meeting_new (meet_port ''/b''))
                        \<lparr>meeting_id := Some 1, active := True, audioMuted := Flag True,
                         videoMuted := Flag False\<rparr>),
                  (2, (Meeting_new (meet_port ''/c''))\<lparr>meeting_id := Some 2\<rparr>),
                  (3, (Meeting_new (meet_port ''/d''))\<lparr>meeting_id := Some 3\<rparr>)]\<rparr>"
  by (simp add: later_events_def run_def
      three_one_active_registry Meetings_get_def Meeting_recv_def Meeting_message_update_def
      update_msg_def default_msg_def Meetings_setDefault_def setDefault_one_def
      Meetings_remove_def map_delete_def Meetings_add_def Meeting_new_def port_name_meet_port)

theorem C9_active_never_reverts_witness:
  "Meetings_get (registry (run (init_world True None) joined_events)) 1
     = Some ((Meeting_new (meet_port ''/b''))\<lparr>meeting_id := Some 1, active := True\<rparr>)
   \<and> active ((Meeting_new (meet_port ''/b''))\<lparr>meeting_id := Some 1, active := True\<rparr>)
   \<and> Meetings_get (registry (run (init_world True None) (joined_events @ later_events))) 1
     = Some ((Meeting_new (meet_port ''/b''))
               \<lparr>meeting_id := Some 1, active := True, audioMuted := Flag True,
                videoMuted := Flag False\<rparr>)
   \<and> active ((Meeting_new (meet_port ''/b''))
               \<lparr>meeting_id := Some 1, active := True, audioMuted := Flag True,
                videoMuted := Flag False\<rparr>)
   \<and> command joined_msg = ''joined''
   \<and> Meetings_get (registry three_connected) 1
     = Some ((Meeting_new (meet_port ''/b''))\<lparr>meeting_id := Some 1\<rparr>)
   \<and> Meetings_get (registry (step three_connected (Recv 1 joined_msg))) 1
     = Some ((Meeting_new (meet_port ''/b''))\<lparr>meeting_id := Some 1, active := True\<rparr>)"
  using C9_active_never_reverts
    [of True None joined_events 1
      "(Meeting_new (meet_port ''/b''))\<lparr>meeting_id := Some 1, active := True\<rparr>"
      later_events
      "(Meeting_new (meet_port ''/b''))
         \<lparr>meeting_id := Some 1, active := True, audioMuted := Flag True,
          videoMuted := Flag False\<rparr>"
      joined_msg three_connected
      "(Meeting_new (meet_port ''/b''))\<lparr>meeting_id := Some 1\<rparr>"
      "meet_port ''/b''"]
  by (simp add: run_append joined_events_run later_events_registry three_one_active_registry
      three_connected_registry Meetings_get_def joined_msg_def Meeting_new_def)

end
